theory Spec2Isabelle
  imports Complex_Main "HOL-Library.AList"
begin

section \<open>JavaScript values used by the route handler\<close>

text \<open>
  Strings are lists of 8-bit characters; a JavaScript string is a list of UTF-16 code
  units, so the model covers the strings whose code units are below 256. An optional
  value (\<^verbatim>\<open>undefined\<close> or an absent property) is \<open>None\<close>.
\<close>

text \<open>JavaScript truthiness of an optional string: \<^verbatim>\<open>undefined\<close> and \<^verbatim>\<open>""\<close> are falsy.\<close>

fun truthy :: "string option \<Rightarrow> bool" where
  "truthy None = False"
| "truthy (Some s) = (s \<noteq> [])"

text \<open>\<^verbatim>\<open>a || b\<close> on optional strings.\<close>

definition js_or :: "string option \<Rightarrow> string option \<Rightarrow> string option" where
  "js_or a b = (if truthy a then a else b)"

text \<open>\<^verbatim>\<open>s.startsWith(p)\<close>.\<close>

definition startsWith :: "string \<Rightarrow> string \<Rightarrow> bool" where
  "startsWith s p = (take (length p) s = p)"

text \<open>\<^verbatim>\<open>s.replace(/c/g, r)\<close> for a single character \<open>c\<close>.\<close>

definition replaceAll :: "char \<Rightarrow> string \<Rightarrow> string \<Rightarrow> string" where
  "replaceAll c r s = concat (map (\<lambda>x. if x = c then r else [x]) s)"

text \<open>
  What a \<^verbatim>\<open>throw\<close> carries: an \<^verbatim>\<open>Error\<close> with its message, or the
  \<^verbatim>\<open>TypeError\<close> of a property read on \<^verbatim>\<open>undefined\<close> or on \<^verbatim>\<open>null\<close>
  (with the property's name). The messages of the latter two are those of V8, the engine
  of Node and of Chromium.
\<close>

datatype thrown = Error string | TypeErrorUndefined string | TypeErrorNull string

fun message :: "thrown \<Rightarrow> string" where
  "message (Error m) = m"
| "message (TypeErrorUndefined p) =
     ''Cannot read properties of undefined (reading '' @ [CHR 0x27] @ p @ [CHR 0x27] @ '')''"
| "message (TypeErrorNull p) =
     ''Cannot read properties of null (reading '' @ [CHR 0x27] @ p @ [CHR 0x27] @ '')''"

section \<open>The generation route (api/generate)\<close>

subsection \<open>Request, response and the external service\<close>

record ArrowSelection =
  latitude :: real
  longitude :: real
  bearingDeg :: real
  lengthMeters :: real

record Center =
  center_latitude :: real
  center_longitude :: real

record Bounds =
  north :: real
  south :: real
  east :: real
  west :: real

record MapStateSnapshot =
  zoom :: real
  center :: Center
  bounds :: Bounds
  style :: string

text \<open>The JSON body of the request, after \<^verbatim>\<open>req.json()\<close>.\<close>

record GenerateBody =
  prompt :: "string option"
  arrow :: "ArrowSelection option"
  mapState :: MapStateSnapshot
  mapSnapshotDataUrl :: "string option"

text \<open>The answer of the generation service, with every optional level of the source.\<close>

record InlineData =
  mimeType :: "string option"
  data :: "string option"

record Part =
  inlineData :: "InlineData option"

record Content =
  parts :: "Part list option"

record Candidate =
  content :: "Content option"

record GenResponse =
  candidates :: "Candidate list option"

text \<open>
  What the handler sends: the parts of the one user message, a text and possibly the
  map snapshot as inline data. The SDK call goes through a client made with the API
  key and carries the model name and the response mime type; the REST call is a
  \<^verbatim>\<open>POST\<close> of the parts as JSON to a URL.
\<close>

datatype RequestPart = TextPart string | InlinePart string string

record SdkRequest =
  sdk_apiKey :: string
  sdk_model :: string
  sdk_parts :: "RequestPart list"
  sdk_responseMimeType :: string

record RestRequest =
  rest_url :: string
  rest_parts :: "RequestPart list"

text \<open>
  The two transports are opaque functions of the request. The SDK call throws or
  returns a response; the REST call fails in \<^verbatim>\<open>fetch\<close>, answers with a status
  that is not ok, fails in \<^verbatim>\<open>resp.json()\<close>, or returns a response.
\<close>

datatype SdkOutcome = SdkThrows thrown | SdkReturns GenResponse

datatype RestOutcome =
    FetchThrows thrown
  | RestNotOk nat
  | RestJsonThrows thrown
  | RestOk GenResponse

text \<open>
  The process environment and the platform services the handler uses:
  \<^verbatim>\<open>crypto.randomUUID()\<close>, the printing of numbers (\<^verbatim>\<open>Number::toString\<close> and
  \<^verbatim>\<open>toFixed\<close>, which are floating-point arithmetic and therefore parameters) and the
  two transports.
\<close>

record Runtime =
  GOOGLE_API_KEY :: "string option"
  GEMINI_API_KEY :: "string option"
  GEMINI_IMAGE_MODEL :: "string option"
  randomUUID :: string
  numberToString :: "real \<Rightarrow> string"
  toFixed :: "nat \<Rightarrow> real \<Rightarrow> string"
  sdkService :: "SdkRequest \<Rightarrow> SdkOutcome"
  restService :: "RestRequest \<Rightarrow> RestOutcome"

record GenResult =
  id' :: string
  imageDataUrl :: string
  model :: string

datatype ApiResponse = Ok200 GenResult | Err500 string

text \<open>The outbound calls made while a request is handled, in order, each with what it sent.\<close>

datatype attempt = SdkCall SdkRequest | RestCall RestRequest

subsection \<open>The handler\<close>

definition DEFAULT_MODEL :: "Runtime \<Rightarrow> string" where
  "DEFAULT_MODEL rt =
     (case js_or (GEMINI_IMAGE_MODEL rt) (Some ''gemini-2.5-flash-image-preview'') of
        Some m \<Rightarrow> m
      | None \<Rightarrow> ''gemini-2.5-flash-image-preview'')"

definition escapeHtml :: "string \<Rightarrow> string" where
  "escapeHtml s =
     replaceAll (CHR ''>'') ''&gt;'' (replaceAll (CHR ''<'') ''&lt;'' (replaceAll (CHR ''&'') ''&amp;'' s))"

definition svgHead :: string where
  "svgHead =
     ''<svg xmlns='http://www.w3.org/2000/svg' width='800' height='450'>'' @ [CHR 0x0A] @
     ''    <rect width='100%' height='100%' fill='#f3f4f6'/>'' @ [CHR 0x0A] @
     ''    <text x='50%' y='45%' dominant-baseline='middle' text-anchor='middle' font-family='sans-serif' font-size='20' fill='#374151'>Mock image</text>'' @ [CHR 0x0A] @
     ''    <text x='50%' y='55%' dominant-baseline='middle' text-anchor='middle' font-family='sans-serif' font-size='14' fill='#6b7280'>''"

definition svgTail :: string where
  "svgTail = ''</text>'' @ [CHR 0x0A] @ ''  </svg>''"

text \<open>The caption the placeholder embeds: \<^verbatim>\<open>escapeHtml(text).slice(0, 90)\<close>.\<close>

definition mockCaption :: "string \<Rightarrow> string" where
  "mockCaption text = take 90 (escapeHtml text)"

definition mockSvg :: "string \<Rightarrow> string" where
  "mockSvg text = svgHead @ mockCaption text @ svgTail"

text \<open>
  \<^verbatim>\<open>Buffer.from(s).toString("base64")\<close>: the UTF-8 bytes of the string (for code
  units below 256) in base64 with padding.
\<close>

definition base64Alphabet :: string where
  "base64Alphabet = ''ABCDEFGHIJKLMNOPQRSTUVWXYZabcdefghijklmnopqrstuvwxyz0123456789+/''"

definition base64Digit :: "nat \<Rightarrow> char" where
  "base64Digit n = base64Alphabet ! (n mod 64)"

fun base64Bytes :: "nat list \<Rightarrow> string" where
  "base64Bytes [] = []"
| "base64Bytes [a] =
     [base64Digit (a div 4), base64Digit ((a mod 4) * 16), CHR ''='', CHR ''='']"
| "base64Bytes [a, b] =
     [base64Digit (a div 4), base64Digit ((a mod 4) * 16 + b div 16),
      base64Digit ((b mod 16) * 4), CHR ''='']"
| "base64Bytes (a # b # c # rest) =
     [base64Digit (a div 4), base64Digit ((a mod 4) * 16 + b div 16),
      base64Digit ((b mod 16) * 4 + c div 64), base64Digit (c mod 64)] @ base64Bytes rest"

definition utf8 :: "string \<Rightarrow> nat list" where
  "utf8 s =
     concat (map (\<lambda>c. let n = (of_char c :: nat)
                       in if n < 128 then [n] else [192 + n div 64, 128 + n mod 64]) s)"

definition toBase64 :: "string \<Rightarrow> string" where
  "toBase64 s = base64Bytes (utf8 s)"

text \<open>
  \<^verbatim>\<open>synthMockImage(text)\<close>. The parameter is typed \<^verbatim>\<open>string\<close>, but it is the
  \<^verbatim>\<open>prompt\<close> property of an unchecked JSON body: when the property is absent,
  \<^verbatim>\<open>escapeHtml\<close> calls \<^verbatim>\<open>replace\<close> on \<^verbatim>\<open>undefined\<close> and throws.
\<close>

definition synthMockImage :: "string option \<Rightarrow> thrown + string" where
  "synthMockImage text =
     (case text of
        None \<Rightarrow> Inl (TypeErrorUndefined ''replace'')
      | Some t \<Rightarrow> Inr (''data:image/svg+xml;base64,'' @ toBase64 (mockSvg t)))"

text \<open>
  \<^verbatim>\<open>candidates?.[0]?.content?.parts?.find(p => p.inlineData?.mimeType?.startsWith("image/"))\<close>
\<close>

definition isImagePart :: "Part \<Rightarrow> bool" where
  "isImagePart p =
     (case inlineData p of
        None \<Rightarrow> False
      | Some d \<Rightarrow> (case mimeType d of None \<Rightarrow> False | Some m \<Rightarrow> startsWith m ''image/''))"

definition findImagePart :: "GenResponse \<Rightarrow> Part option" where
  "findImagePart res =
     (case candidates res of
        None \<Rightarrow> None
      | Some [] \<Rightarrow> None
      | Some (c # _) \<Rightarrow>
          (case content c of
             None \<Rightarrow> None
           | Some ct \<Rightarrow> (case parts ct of None \<Rightarrow> None | Some ps \<Rightarrow> find isImagePart ps)))"

text \<open>
  \<^verbatim>\<open>if (part?.inlineData?.data) dataUrl = `data:${mimeType};base64,${data}`\<close>:
  the data URL of the image part, when the part has non-empty data.
\<close>

definition imageDataUrlOf :: "GenResponse \<Rightarrow> string option" where
  "imageDataUrlOf res =
     (case findImagePart res of
        None \<Rightarrow> None
      | Some p \<Rightarrow>
          (case inlineData p of
             None \<Rightarrow> None
           | Some d \<Rightarrow>
               (if truthy (data d)
                then Some (''data:'' @ (case mimeType d of None \<Rightarrow> ''undefined'' | Some m \<Rightarrow> m)
                           @ '';base64,'' @ (case data d of None \<Rightarrow> [] | Some x \<Rightarrow> x))
                else None)))"

text \<open>\<^verbatim>\<open>Math.round\<close> on real numbers: the nearest integer, a half going up.\<close>

definition Math_round :: "real \<Rightarrow> real" where
  "Math_round x = of_int \<lfloor>x + 1 / 2\<rfloor>"

text \<open>
  \<^verbatim>\<open>buildContextText(prompt, arrow, map)\<close>. The two characters after the bearing are
  the ones of the source file (code units C2 and B0).
\<close>

definition buildContextText ::
  "Runtime \<Rightarrow> string option \<Rightarrow> ArrowSelection option \<Rightarrow> MapStateSnapshot option \<Rightarrow> string" where
  "buildContextText rt promptText arrowSel mapSel =
     (let loc = (case arrowSel of
                   Some a \<Rightarrow>
                     ''Location (lat,lng): '' @ toFixed rt 5 (latitude a) @ '', '' @ toFixed rt 5 (longitude a)
                     @ ''. Direction bearing: '' @ numberToString rt (Math_round (bearingDeg a))
                     @ [CHR 0xC2, CHR 0xB0] @ ''. Length ~''
                     @ numberToString rt (Math_round (lengthMeters a)) @ ''m.''
                 | None \<Rightarrow> ''No directional arrow provided.'');
          boundsText = (case mapSel of
                   Some m \<Rightarrow>
                     ''Bounds N'' @ toFixed rt 4 (north (bounds m)) @ '' S'' @ toFixed rt 4 (south (bounds m))
                     @ '' E'' @ toFixed rt 4 (east (bounds m)) @ '' W'' @ toFixed rt 4 (west (bounds m))
                     @ ''. Zoom '' @ numberToString rt (zoom m) @ ''.''
                 | None \<Rightarrow> [])
      in ''Generate an image of what the red arrow sees. Use the map snapshot as spatial context and viewpoint.''
         @ [CHR 0x0A] @ loc
         @ [CHR 0x0A] @ boundsText
         @ [CHR 0x0A] @ ''User caption (optional): '' @ (case js_or promptText (Some []) of Some p \<Rightarrow> p | None \<Rightarrow> [])
         @ [CHR 0x0A] @ ''Label AI-generated if watermarks are supported.'')"

text \<open>
  \<^verbatim>\<open>dataUrlToPart\<close>: the match of \<^verbatim>\<open>/^data:([^;]+);base64,(.*)$/\<close>. The mime
  type is the longest run without a semicolon and must not be empty; the data runs to
  the end of the string and holds no line terminator, which \<^verbatim>\<open>.\<close> does not match.
\<close>

definition isLineTerminator :: "char \<Rightarrow> bool" where
  "isLineTerminator c = (c = CHR 0x0A \<or> c = CHR 0x0D)"

definition dataUrlToPart :: "string \<Rightarrow> RequestPart" where
  "dataUrlToPart dataUrl =
     (let afterScheme = drop 5 dataUrl;
          mime = takeWhile (\<lambda>c. c \<noteq> CHR '';'') afterScheme;
          afterMime = dropWhile (\<lambda>c. c \<noteq> CHR '';'') afterScheme;
          payload = drop 8 afterMime
      in if startsWith dataUrl ''data:'' \<and> mime \<noteq> [] \<and> startsWith afterMime '';base64,''
            \<and> \<not> list_ex isLineTerminator payload
         then InlinePart mime payload
         else InlinePart ''image/jpeg'' [])"

text \<open>The parts of the message: the context text and, for a non-empty snapshot, the image.\<close>

definition requestParts :: "Runtime \<Rightarrow> GenerateBody \<Rightarrow> RequestPart list" where
  "requestParts rt body =
     TextPart (buildContextText rt (prompt body) (arrow body) (Some (mapState body)))
     # (if truthy (mapSnapshotDataUrl body)
        then (case mapSnapshotDataUrl body of Some u \<Rightarrow> [dataUrlToPart u] | None \<Rightarrow> [])
        else [])"

text \<open>\<^verbatim>\<open>encodeURIComponent\<close>: the unreserved characters stay, the others are written
  as the percent-encoded bytes of their UTF-8 form.\<close>

definition uriUnreserved :: "char \<Rightarrow> bool" where
  "uriUnreserved c =
     (c \<in> set (''ABCDEFGHIJKLMNOPQRSTUVWXYZabcdefghijklmnopqrstuvwxyz0123456789-_.!~*()'' @ [CHR 0x27]))"

definition hexDigitUpper :: "nat \<Rightarrow> char" where
  "hexDigitUpper n = ''0123456789ABCDEF'' ! (n mod 16)"

definition encodeURIComponent :: "string \<Rightarrow> string" where
  "encodeURIComponent s =
     concat (map (\<lambda>c. if uriUnreserved c then [c]
                       else concat (map (\<lambda>b. [CHR ''%'', hexDigitUpper (b div 16), hexDigitUpper (b mod 16)])
                                        (utf8 [c]))) s)"

definition apiKey :: "Runtime \<Rightarrow> string option" where
  "apiKey rt = js_or (GOOGLE_API_KEY rt) (GEMINI_API_KEY rt)"

definition restRequest :: "Runtime \<Rightarrow> GenerateBody \<Rightarrow> RestRequest" where
  "restRequest rt body =
     \<lparr>rest_url = ''https://generativelanguage.googleapis.com/v1beta/models/''
                  @ encodeURIComponent (DEFAULT_MODEL rt) @ '':generateContent?key=''
                  @ (case apiKey rt of Some k \<Rightarrow> k | None \<Rightarrow> ''undefined''),
      rest_parts = requestParts rt body\<rparr>"

definition sdkRequest :: "Runtime \<Rightarrow> GenerateBody \<Rightarrow> SdkRequest" where
  "sdkRequest rt body =
     \<lparr>sdk_apiKey = (case apiKey rt of Some k \<Rightarrow> k | None \<Rightarrow> ''undefined''),
      sdk_model = DEFAULT_MODEL rt, sdk_parts = requestParts rt body,
      sdk_responseMimeType = ''image/png''\<rparr>"

text \<open>
  \<^verbatim>\<open>callImagesGenerateREST\<close>: one \<^verbatim>\<open>fetch\<close>; every exception inside is caught
  and ignored, and the function returns \<^verbatim>\<open>null\<close> unless the answer holds an image.
\<close>

definition callImagesGenerateREST ::
  "Runtime \<Rightarrow> GenerateBody \<Rightarrow> attempt list \<Rightarrow> GenResult option \<times> attempt list" where
  "callImagesGenerateREST rt body calls =
     (case restService rt (restRequest rt body) of
        FetchThrows e \<Rightarrow> (None, calls @ [RestCall (restRequest rt body)])
      | RestNotOk status \<Rightarrow> (None, calls @ [RestCall (restRequest rt body)])
      | RestJsonThrows e \<Rightarrow> (None, calls @ [RestCall (restRequest rt body)])
      | RestOk res \<Rightarrow>
          (case imageDataUrlOf res of
             None \<Rightarrow> (None, calls @ [RestCall (restRequest rt body)])
           | Some url \<Rightarrow>
               (Some \<lparr>id' = randomUUID rt, imageDataUrl = url, model = DEFAULT_MODEL rt\<rparr>,
                calls @ [RestCall (restRequest rt body)])))"

text \<open>The inner \<^verbatim>\<open>try\<close> of the handler: the SDK call; \<open>None\<close> falls through to REST.\<close>

definition sdkGenerate ::
  "Runtime \<Rightarrow> GenerateBody \<Rightarrow> attempt list \<Rightarrow> GenResult option \<times> attempt list" where
  "sdkGenerate rt body calls =
     (case sdkService rt (sdkRequest rt body) of
        SdkThrows e \<Rightarrow> (None, calls @ [SdkCall (sdkRequest rt body)])
      | SdkReturns res \<Rightarrow>
          (case imageDataUrlOf res of
             None \<Rightarrow> (None, calls @ [SdkCall (sdkRequest rt body)])
           | Some url \<Rightarrow>
               (Some \<lparr>id' = randomUUID rt, imageDataUrl = url, model = DEFAULT_MODEL rt\<rparr>,
                calls @ [SdkCall (sdkRequest rt body)])))"

text \<open>
  \<^verbatim>\<open>POST\<close>, from the parsed body on. The result is the HTTP response and the outbound
  calls that were made. Every exception reaches the outer \<^verbatim>\<open>catch\<close>, which answers
  with status 500 and the exception's message.
\<close>

definition POST :: "Runtime \<Rightarrow> GenerateBody \<Rightarrow> ApiResponse \<times> attempt list" where
  "POST rt body =
     (if \<not> truthy (apiKey rt) then
        (case synthMockImage (prompt body) of
           Inl e \<Rightarrow> (Err500 (message e), [])
         | Inr dataUrl \<Rightarrow>
             (Ok200 \<lparr>id' = randomUUID rt, imageDataUrl = dataUrl, model = ''mock''\<rparr>, []))
      else
        (case sdkGenerate rt body [] of
           (Some r, calls) \<Rightarrow> (Ok200 r, calls)
         | (None, calls) \<Rightarrow>
             (case callImagesGenerateREST rt body calls of
                (Some r, calls') \<Rightarrow> (Ok200 r, calls')
              | (None, calls') \<Rightarrow> (Err500 (message (Error ''Model did not return an image'')), calls'))))"

text \<open>The image of a response, when it has one.\<close>

fun responseImage :: "ApiResponse \<Rightarrow> string option" where
  "responseImage (Ok200 r) = Some (imageDataUrl r)"
| "responseImage (Err500 m) = None"




section \<open>The arrow overlay and the click bearing (MapView)\<close>

text \<open>
  JavaScript numbers are modelled as real numbers and \<^verbatim>\<open>Math.sin\<close>, \<^verbatim>\<open>Math.cos\<close>
  as the real functions: the rounding of IEEE doubles, \<^verbatim>\<open>NaN\<close> and the infinities
  are outside the model.
\<close>

type_synonym point = "real \<times> real"

text \<open>What \<^verbatim>\<open>drawOverlay\<close> puts on the canvas: the shaft and the filled head.\<close>

record Overlay =
  lineFrom :: point
  lineTo :: point
  headLeft :: point
  headRight :: point

text \<open>
  The body shared by both versions of \<^verbatim>\<open>drawOverlay\<close>, from
  \<^verbatim>\<open>const angle = (arrow.bearingDeg * Math.PI) / 180\<close> on. The shaft length is a quarter
  of the smaller canvas side; \<^verbatim>\<open>arrow.lengthMeters\<close> is not read.
\<close>

definition arrowPath :: "point \<Rightarrow> real \<Rightarrow> real \<Rightarrow> real \<Rightarrow> Overlay" where
  "arrowPath origin bearing width height =
     (let angle = (bearing * pi) / 180;
          lengthPx = min width height * 0.25;
          endX = fst origin + sin angle * lengthPx;
          endY = snd origin - cos angle * lengthPx;
          headLen = 12;
          headAngle = pi / 8;
          leftX = endX - headLen * sin (angle - headAngle);
          leftY = endY + headLen * cos (angle - headAngle);
          rightX = endX - headLen * sin (angle + headAngle);
          rightY = endY + headLen * cos (angle + headAngle)
      in \<lparr>lineFrom = origin, lineTo = (endX, endY),
          headLeft = (leftX, leftY), headRight = (rightX, rightY)\<rparr>)"

text \<open>The first MapView: the arrow starts at the centre of the canvas.\<close>

definition drawOverlay_centered :: "ArrowSelection option \<Rightarrow> real \<Rightarrow> real \<Rightarrow> Overlay option" where
  "drawOverlay_centered arrowSel width height =
     (case arrowSel of
        None \<Rightarrow> None
      | Some a \<Rightarrow> Some (arrowPath (width / 2, height / 2) (bearingDeg a) width height))"

text \<open>
  The second MapView: the arrow starts at \<^verbatim>\<open>map.project([lng, lat])\<close>. The first
  argument is the projection of the map widget, \<open>None\<close> when there is no map.
\<close>

definition drawOverlay ::
  "(real \<Rightarrow> real \<Rightarrow> point) option \<Rightarrow> ArrowSelection option \<Rightarrow> real \<Rightarrow> real \<Rightarrow> Overlay option" where
  "drawOverlay project arrowSel width height =
     (case project of
        None \<Rightarrow> None
      | Some proj \<Rightarrow>
          (case arrowSel of
             None \<Rightarrow> None
           | Some a \<Rightarrow> Some (arrowPath (proj (longitude a) (latitude a)) (bearingDeg a) width height)))"

definition pixelDistance :: "point \<Rightarrow> point \<Rightarrow> real" where
  "pixelDistance p q = sqrt ((fst q - fst p)\<^sup>2 + (snd q - snd p)\<^sup>2)"

text \<open>\<^verbatim>\<open>Math.atan2(y, x)\<close> on real numbers.\<close>

definition atan2 :: "real \<Rightarrow> real \<Rightarrow> real" where
  "atan2 y x =
     (if 0 < x then arctan (y / x)
      else if x < 0 then (if 0 \<le> y then arctan (y / x) + pi else arctan (y / x) - pi)
      else if 0 < y then pi / 2
      else if y < 0 then - (pi / 2)
      else 0)"

text \<open>\<^verbatim>\<open>a % b\<close> on real numbers: the remainder of the division truncated towards zero.\<close>

definition js_rem :: "real \<Rightarrow> real \<Rightarrow> real" where
  "js_rem a b = a - b * of_int (if 0 \<le> a / b then \<lfloor>a / b\<rfloor> else \<lceil>a / b\<rceil>)"

text \<open>The click handler of the first MapView; the click is \<^verbatim>\<open>(lng, lat)\<close>.\<close>

definition clickBearingDeg :: "Center \<Rightarrow> real \<times> real \<Rightarrow> real" where
  "clickBearingDeg c clickLngLat =
     (let bearing = atan2 ((fst clickLngLat - center_longitude c) * cos ((center_latitude c * pi) / 180))
                          (snd clickLngLat - center_latitude c)
      in js_rem ((bearing * 180) / pi + 360) 360)"

definition onMapClick :: "Center option \<Rightarrow> real \<times> real \<Rightarrow> ArrowSelection option \<Rightarrow> ArrowSelection option" where
  "onMapClick mapCenter clickLngLat arrowSel =
     (case mapCenter of
        None \<Rightarrow> arrowSel
      | Some c \<Rightarrow> Some \<lparr>latitude = snd clickLngLat, longitude = fst clickLngLat,
                       bearingDeg = clickBearingDeg c clickLngLat, lengthMeters = 150\<rparr>)"

section \<open>JSON text (JSON.stringify and JSON.parse)\<close>

text \<open>
  The history store keeps its list as JSON text. A value in memory is modelled by its
  JSON tree: an object is the list of its properties in insertion order, and a property
  whose value is \<^verbatim>\<open>undefined\<close> is an absent property (reading it gives
  \<^verbatim>\<open>undefined\<close> either way, and \<^verbatim>\<open>JSON.stringify\<close> omits it).

  Numbers are real numbers. How the engine prints a number and reads a number literal
  is floating-point arithmetic; the two functions are parameters: \<open>ns\<close> stands for
  \<^verbatim>\<open>Number::toString\<close> and \<open>nr\<close> for the reading of a JSON number token.
\<close>

datatype json =
    JNull
  | JBool bool
  | JNum real
  | JStr string
  | JArr "json list"
  | JObj "(string \<times> json) list"

definition dquote :: char where "dquote = CHR 0x22"
definition backslash :: char where "backslash = CHR 0x5C"

text \<open>\<^verbatim>\<open>QuoteJSONString\<close>: the escapes \<^verbatim>\<open>JSON.stringify\<close> writes.\<close>

definition hexDigit :: "nat \<Rightarrow> char" where
  "hexDigit n = ''0123456789abcdef'' ! (n mod 16)"

definition quoteChar :: "char \<Rightarrow> string" where
  "quoteChar c =
     (if c = dquote then [backslash, dquote]
      else if c = backslash then [backslash, backslash]
      else if c = CHR 0x08 then [backslash, CHR ''b'']
      else if c = CHR 0x0C then [backslash, CHR ''f'']
      else if c = CHR 0x0A then [backslash, CHR ''n'']
      else if c = CHR 0x0D then [backslash, CHR ''r'']
      else if c = CHR 0x09 then [backslash, CHR ''t'']
      else if (of_char c :: nat) < 32
        then [backslash, CHR ''u'', CHR ''0'', CHR ''0'',
              hexDigit ((of_char c :: nat) div 16), hexDigit ((of_char c :: nat) mod 16)]
      else [c])"

definition quoteJSONString :: "string \<Rightarrow> string" where
  "quoteJSONString s = dquote # concat (map quoteChar s) @ [dquote]"

fun commas :: "string list \<Rightarrow> string" where
  "commas [] = []"
| "commas [x] = x"
| "commas (x # y # ys) = x @ '','' @ commas (y # ys)"

fun JSON_stringify :: "(real \<Rightarrow> string) \<Rightarrow> json \<Rightarrow> string" where
  "JSON_stringify ns JNull = ''null''"
| "JSON_stringify ns (JBool b) = (if b then ''true'' else ''false'')"
| "JSON_stringify ns (JNum x) = ns x"
| "JSON_stringify ns (JStr s) = quoteJSONString s"
| "JSON_stringify ns (JArr xs) = ''['' @ commas (map (JSON_stringify ns) xs) @ '']''"
| "JSON_stringify ns (JObj kvs) =
     ''{'' @ commas (map (\<lambda>(k, v). quoteJSONString k @ '':'' @ JSON_stringify ns v) kvs) @ ''}''"

text \<open>
  The reader: whitespace, string bodies with their escapes, number tokens. An escape
  \<^verbatim>\<open>\uXXXX\<close> of 0x100 or more stands for a code unit that the strings of the model
  do not have: the reader gives \<open>None\<close> for such a text, where \<^verbatim>\<open>JSON.parse\<close> reads
  it. These texts are outside the model; \<^verbatim>\<open>JSON.stringify\<close> writes none of them for
  a string of the model.
\<close>

definition isWs :: "char \<Rightarrow> bool" where
  "isWs c = (c = CHR '' '' \<or> c = CHR 0x09 \<or> c = CHR 0x0A \<or> c = CHR 0x0D)"

definition skipWs :: "string \<Rightarrow> string" where
  "skipWs s = dropWhile isWs s"

definition isDigit :: "char \<Rightarrow> bool" where
  "isDigit c = (c \<in> set ''0123456789'')"

definition isNumChar :: "char \<Rightarrow> bool" where
  "isNumChar c = (isDigit c \<or> c \<in> set ''-+.eE'')"

definition hexVal :: "char \<Rightarrow> nat option" where
  "hexVal c =
     map_of
       [(CHR ''0'', 0), (CHR ''1'', 1), (CHR ''2'', 2), (CHR ''3'', 3), (CHR ''4'', 4),
        (CHR ''5'', 5), (CHR ''6'', 6), (CHR ''7'', 7), (CHR ''8'', 8), (CHR ''9'', 9),
        (CHR ''a'', 10), (CHR ''b'', 11), (CHR ''c'', 12), (CHR ''d'', 13), (CHR ''e'', 14),
        (CHR ''f'', 15), (CHR ''A'', 10), (CHR ''B'', 11), (CHR ''C'', 12), (CHR ''D'', 13),
        (CHR ''E'', 14), (CHR ''F'', 15)] c"

definition unescape :: "char \<Rightarrow> char option" where
  "unescape e =
     (if e = dquote then Some dquote
      else if e = backslash then Some backslash
      else if e = CHR ''/'' then Some (CHR ''/'')
      else if e = CHR ''b'' then Some (CHR 0x08)
      else if e = CHR ''f'' then Some (CHR 0x0C)
      else if e = CHR ''n'' then Some (CHR 0x0A)
      else if e = CHR ''r'' then Some (CHR 0x0D)
      else if e = CHR ''t'' then Some (CHR 0x09)
      else None)"

definition hex4 :: "char \<Rightarrow> char \<Rightarrow> char \<Rightarrow> char \<Rightarrow> nat option" where
  "hex4 a b c d =
     (case (hexVal a, hexVal b, hexVal c, hexVal d) of
        (Some w, Some x, Some y, Some z) \<Rightarrow> Some (((w * 16 + x) * 16 + y) * 16 + z)
      | _ \<Rightarrow> None)"

definition consChar :: "char \<Rightarrow> (string \<times> string) option \<Rightarrow> (string \<times> string) option" where
  "consChar c r = (case r of None \<Rightarrow> None | Some (s, rest) \<Rightarrow> Some (c # s, rest))"

fun parseStringBody :: "string \<Rightarrow> (string \<times> string) option" where
  "parseStringBody [] = None"
| "parseStringBody (c # cs) =
     (if c = dquote then Some ([], cs)
      else if c = backslash then
        (case cs of
           [] \<Rightarrow> None
         | e # r \<Rightarrow>
             (if e = CHR ''u'' then
                (case r of
                   h1 # h2 # h3 # h4 # r' \<Rightarrow>
                     (case hex4 h1 h2 h3 h4 of
                        None \<Rightarrow> None
                      | Some n \<Rightarrow> if n < 256 then consChar (char_of n) (parseStringBody r') else None)
                 | _ \<Rightarrow> None)
              else
                (case unescape e of
                   None \<Rightarrow> None
                 | Some ch \<Rightarrow> consChar ch (parseStringBody r))))
      else if (of_char c :: nat) < 32 then None
      else consChar c (parseStringBody cs))"

text \<open>
  The recursive descent of \<^verbatim>\<open>JSON.parse\<close>, with fuel for the nesting: each call
  consumes at least one character, so the length of the text is enough fuel. A key
  that occurs twice keeps its first position and its last value, as a JavaScript object
  does.
\<close>

fun parseValue :: "(string \<Rightarrow> real option) \<Rightarrow> nat \<Rightarrow> string \<Rightarrow> (json \<times> string) option"
and parseElements :: "(string \<Rightarrow> real option) \<Rightarrow> nat \<Rightarrow> string \<Rightarrow> (json list \<times> string) option"
and parseMembers ::
  "(string \<Rightarrow> real option) \<Rightarrow> nat \<Rightarrow> (string \<times> json) list \<Rightarrow> string \<Rightarrow> ((string \<times> json) list \<times> string) option"
where
  "parseValue nr 0 s = None"
| "parseValue nr (Suc n) s =
     (case skipWs s of
        [] \<Rightarrow> None
      | c # cs \<Rightarrow>
          if c = CHR ''['' then
            (case skipWs cs of
               [] \<Rightarrow> None
             | d # r \<Rightarrow>
                 if d = CHR '']'' then Some (JArr [], r)
                 else (case parseElements nr n cs of
                         None \<Rightarrow> None
                       | Some (xs, r') \<Rightarrow> Some (JArr xs, r')))
          else if c = CHR ''{'' then
            (case skipWs cs of
               [] \<Rightarrow> None
             | d # r \<Rightarrow>
                 if d = CHR ''}'' then Some (JObj [], r)
                 else (case parseMembers nr n [] cs of
                         None \<Rightarrow> None
                       | Some (kvs, r') \<Rightarrow> Some (JObj kvs, r')))
          else if c = dquote then
            (case parseStringBody cs of
               None \<Rightarrow> None
             | Some (str, r) \<Rightarrow> Some (JStr str, r))
          else if take 4 (c # cs) = ''true'' then Some (JBool True, drop 4 (c # cs))
          else if take 5 (c # cs) = ''false'' then Some (JBool False, drop 5 (c # cs))
          else if take 4 (c # cs) = ''null'' then Some (JNull, drop 4 (c # cs))
          else if c = CHR ''-'' \<or> isDigit c then
            (case nr (takeWhile isNumChar (c # cs)) of
               None \<Rightarrow> None
             | Some x \<Rightarrow> Some (JNum x, dropWhile isNumChar (c # cs)))
          else None)"
| "parseElements nr 0 s = None"
| "parseElements nr (Suc n) s =
     (case parseValue nr n s of
        None \<Rightarrow> None
      | Some (v, r) \<Rightarrow>
          (case skipWs r of
             [] \<Rightarrow> None
           | d # r' \<Rightarrow>
               if d = CHR '','' then
                 (case parseElements nr n r' of
                    None \<Rightarrow> None
                  | Some (vs, r'') \<Rightarrow> Some (v # vs, r''))
               else if d = CHR '']'' then Some ([v], r')
               else None))"
| "parseMembers nr 0 acc s = None"
| "parseMembers nr (Suc n) acc s =
     (case skipWs s of
        [] \<Rightarrow> None
      | q # r \<Rightarrow>
          if q = dquote then
            (case parseStringBody r of
               None \<Rightarrow> None
             | Some (k, r1) \<Rightarrow>
                 (case skipWs r1 of
                    [] \<Rightarrow> None
                  | col # r2 \<Rightarrow>
                      if col = CHR '':'' then
                        (case parseValue nr n r2 of
                           None \<Rightarrow> None
                         | Some (v, r3) \<Rightarrow>
                             (case skipWs r3 of
                                [] \<Rightarrow> None
                              | d # r4 \<Rightarrow>
                                  if d = CHR '','' then parseMembers nr n (AList.update k v acc) r4
                                  else if d = CHR ''}'' then Some (AList.update k v acc, r4)
                                  else None))
                      else None))
          else None)"

text \<open>\<^verbatim>\<open>JSON.parse(s)\<close>; \<open>None\<close> is the \<^verbatim>\<open>SyntaxError\<close>.\<close>

definition JSON_parse :: "(string \<Rightarrow> real option) \<Rightarrow> string \<Rightarrow> json option" where
  "JSON_parse nr s =
     (case parseValue nr (length s) s of
        None \<Rightarrow> None
      | Some (v, rest) \<Rightarrow> if skipWs rest = [] then Some v else None)"

section \<open>The history store (utils/storage and hooks/useHistory)\<close>

definition KEY :: string where
  "KEY = ''povmap:history:v1''"

text \<open>
  \<^verbatim>\<open>window.localStorage\<close> is a map from keys to strings; \<open>None\<close> for the window is
  \<^verbatim>\<open>typeof window === "undefined"\<close>. The storage has no quota in the model.
\<close>

type_synonym localStorage = "string \<rightharpoonup> string"

definition loadHistory :: "(string \<Rightarrow> real option) \<Rightarrow> localStorage option \<Rightarrow> json list" where
  "loadHistory nr window =
     (case window of
        None \<Rightarrow> []
      | Some ls \<Rightarrow>
          (case ls KEY of
             None \<Rightarrow> []
           | Some raw \<Rightarrow>
               if raw = [] then []
               else (case JSON_parse nr raw of
                       None \<Rightarrow> []
                     | Some parsed \<Rightarrow> (case parsed of JArr xs \<Rightarrow> xs | _ \<Rightarrow> []))))"

definition saveHistory ::
  "(real \<Rightarrow> string) \<Rightarrow> json list \<Rightarrow> localStorage option \<Rightarrow> localStorage option" where
  "saveHistory ns history window =
     (case window of
        None \<Rightarrow> None
      | Some ls \<Rightarrow> Some (ls(KEY \<mapsto> JSON_stringify ns (JArr history))))"

definition appendResult ::
  "(real \<Rightarrow> string) \<Rightarrow> (string \<Rightarrow> real option) \<Rightarrow> json \<Rightarrow> localStorage option \<Rightarrow> localStorage option" where
  "appendResult ns nr result window = saveHistory ns (result # loadHistory nr window) window"

text \<open>
  \<^verbatim>\<open>r.id\<close> on a loaded entry. The entries are unchecked JSON values: the read throws
  on \<^verbatim>\<open>null\<close>, and gives \<^verbatim>\<open>undefined\<close> on a value without the property.
\<close>

fun idOf :: "json \<Rightarrow> thrown + json option" where
  "idOf JNull = Inl (TypeErrorNull ''id'')"
| "idOf (JObj kvs) = Inr (map_of kvs ''id'')"
| "idOf v = Inr None"

text \<open>\<^verbatim>\<open>history.filter((r) => r.id !== id)\<close>\<close>

fun filterNotId :: "string \<Rightarrow> json list \<Rightarrow> thrown + json list" where
  "filterNotId i [] = Inr []"
| "filterNotId i (r # rs) =
     (case idOf r of
        Inl e \<Rightarrow> Inl e
      | Inr v \<Rightarrow>
          (case filterNotId i rs of
             Inl e \<Rightarrow> Inl e
           | Inr rs' \<Rightarrow> Inr (if v \<noteq> Some (JStr i) then r # rs' else rs')))"

definition removeResult ::
  "(real \<Rightarrow> string) \<Rightarrow> (string \<Rightarrow> real option) \<Rightarrow> string \<Rightarrow> localStorage option
     \<Rightarrow> thrown + localStorage option" where
  "removeResult ns nr i window =
     (case filterNotId i (loadHistory nr window) of
        Inl e \<Rightarrow> Inl e
      | Inr history \<Rightarrow> Inr (saveHistory ns history window))"

definition clearHistory :: "localStorage option \<Rightarrow> localStorage option" where
  "clearHistory window = (case window of None \<Rightarrow> None | Some ls \<Rightarrow> Some (ls(KEY := None)))"

text \<open>
  The hook: its state is the list \<^verbatim>\<open>items\<close> in memory, next to the window. Each
  operation is the updater passed to \<^verbatim>\<open>setItems\<close>.
\<close>

type_synonym hookState = "json list \<times> localStorage option"

definition useHistory_mount :: "(string \<Rightarrow> real option) \<Rightarrow> hookState \<Rightarrow> hookState" where
  "useHistory_mount nr st = (loadHistory nr (snd st), snd st)"

definition useHistory_add :: "(real \<Rightarrow> string) \<Rightarrow> json \<Rightarrow> hookState \<Rightarrow> hookState" where
  "useHistory_add ns item st =
     (let next = item # fst st in (next, saveHistory ns next (snd st)))"

definition useHistory_remove :: "(real \<Rightarrow> string) \<Rightarrow> string \<Rightarrow> hookState \<Rightarrow> thrown + hookState" where
  "useHistory_remove ns i st =
     (case filterNotId i (fst st) of
        Inl e \<Rightarrow> Inl e
      | Inr next \<Rightarrow> Inr (next, saveHistory ns next (snd st)))"

definition useHistory_clear :: "(real \<Rightarrow> string) \<Rightarrow> hookState \<Rightarrow> hookState" where
  "useHistory_clear ns st = ([], saveHistory ns [] (snd st))"

subsection \<open>PovResult objects\<close>

record PovRequest =
  req_prompt :: string
  req_arrow :: ArrowSelection
  req_map :: MapStateSnapshot

record PovResult =
  pov_id :: string
  createdAt :: real
  request :: PovRequest
  pov_mapSnapshotDataUrl :: string
  pov_imageDataUrl :: string
  pov_model :: "string option"
  safetyLabels :: "string list option"

text \<open>An optional property: absent when the value is \<^verbatim>\<open>undefined\<close>.\<close>

fun optional :: "string \<Rightarrow> json option \<Rightarrow> (string \<times> json) list" where
  "optional k None = []"
| "optional k (Some v) = [(k, v)]"

text \<open>
  The objects as the page builds them: the arrow in \<^verbatim>\<open>onMapClick\<close>, the map state in
  \<^verbatim>\<open>snapshotMapState\<close>, the result in \<^verbatim>\<open>generate\<close>, with the properties in that
  order.
\<close>

definition jsonOfArrow :: "ArrowSelection \<Rightarrow> json" where
  "jsonOfArrow a =
     JObj [(''latitude'', JNum (latitude a)), (''longitude'', JNum (longitude a)),
           (''bearingDeg'', JNum (bearingDeg a)), (''lengthMeters'', JNum (lengthMeters a))]"

definition jsonOfMapState :: "MapStateSnapshot \<Rightarrow> json" where
  "jsonOfMapState m =
     JObj [(''zoom'', JNum (zoom m)),
           (''center'', JObj [(''latitude'', JNum (center_latitude (center m))),
                             (''longitude'', JNum (center_longitude (center m)))]),
           (''bounds'', JObj [(''north'', JNum (north (bounds m))), (''south'', JNum (south (bounds m))),
                             (''east'', JNum (east (bounds m))), (''west'', JNum (west (bounds m)))]),
           (''style'', JStr (style m))]"

definition jsonOfPovResult :: "PovResult \<Rightarrow> json" where
  "jsonOfPovResult r =
     JObj ([(''id'', JStr (pov_id r)),
            (''createdAt'', JNum (createdAt r)),
            (''request'', JObj [(''prompt'', JStr (req_prompt (request r))),
                               (''arrow'', jsonOfArrow (req_arrow (request r))),
                               (''map'', jsonOfMapState (req_map (request r)))]),
            (''mapSnapshotDataUrl'', JStr (pov_mapSnapshotDataUrl r)),
            (''imageDataUrl'', JStr (pov_imageDataUrl r))]
           @ optional ''model'' (map_option JStr (pov_model r))
           @ optional ''safetyLabels'' (map_option (\<lambda>ls. JArr (map JStr ls)) (safetyLabels r)))"

text \<open>The numbers a result holds.\<close>

definition povNumbers :: "PovResult \<Rightarrow> real list" where
  "povNumbers r =
     (let a = req_arrow (request r); m = req_map (request r)
      in [createdAt r, latitude a, longitude a, bearingDeg a, lengthMeters a, zoom m,
          center_latitude (center m), center_longitude (center m),
          north (bounds m), south (bounds m), east (bounds m), west (bounds m)])"

section \<open>Notions used in the statements\<close>

text \<open>
  What the model asks of the engine's number functions at a number \<open>x\<close>: the printed
  form is a token that starts with a digit or a minus sign and holds only the
  characters of a JSON number, and reading it gives \<open>x\<close> back.
\<close>

definition numOk :: "(real \<Rightarrow> string) \<Rightarrow> (string \<Rightarrow> real option) \<Rightarrow> real \<Rightarrow> bool" where
  "numOk ns nr x =
     (nr (ns x) = Some x \<and>
      (case ns x of [] \<Rightarrow> False | c # cs \<Rightarrow> (c = CHR ''-'' \<or> isDigit c) \<and> list_all isNumChar cs))"

text \<open>
  A value a JavaScript object graph can hold: no object has two properties of the same
  name, and every number meets \<open>numOk\<close>.
\<close>

fun wfJson :: "(real \<Rightarrow> string) \<Rightarrow> (string \<Rightarrow> real option) \<Rightarrow> json \<Rightarrow> bool" where
  "wfJson ns nr JNull = True"
| "wfJson ns nr (JBool b) = True"
| "wfJson ns nr (JNum x) = numOk ns nr x"
| "wfJson ns nr (JStr s) = True"
| "wfJson ns nr (JArr xs) = list_all (wfJson ns nr) xs"
| "wfJson ns nr (JObj kvs) = (distinct (map fst kvs) \<and> list_all (\<lambda>(k, v). wfJson ns nr v) kvs)"

text \<open>Fuel that is enough to read a value back.\<close>

fun fuelFor :: "json \<Rightarrow> nat" where
  "fuelFor (JArr xs) = Suc (sum_list (map (\<lambda>x. Suc (fuelFor x)) xs))"
| "fuelFor (JObj kvs) = Suc (sum_list (map (\<lambda>(k, v). Suc (fuelFor v)) kvs))"
| "fuelFor v = 1"

text \<open>What may follow a value inside a text: nothing, or a comma or closing bracket.\<close>

definition delim :: "string \<Rightarrow> bool" where
  "delim rest = (case rest of [] \<Rightarrow> True | c # cs \<Rightarrow> c = CHR '','' \<or> c = CHR '']'' \<or> c = CHR ''}'')"

definition valueStart :: "char \<Rightarrow> bool" where
  "valueStart c = (\<not> isWs c \<and> c \<noteq> CHR '']'' \<and> c \<noteq> CHR ''}'')"

definition roundtrips :: "(real \<Rightarrow> string) \<Rightarrow> (string \<Rightarrow> real option) \<Rightarrow> json \<Rightarrow> bool" where
  "roundtrips ns nr x =
     (\<forall>n rest. fuelFor x \<le> n \<longrightarrow> delim rest \<longrightarrow>
        parseValue nr n (JSON_stringify ns x @ rest) = Some (x, rest))"

text \<open>The text of one property of an object.\<close>

definition member :: "(real \<Rightarrow> string) \<Rightarrow> string \<times> json \<Rightarrow> string" where
  "member ns kv = quoteJSONString (fst kv) @ '':'' @ JSON_stringify ns (snd kv)"

text \<open>The identifier of a history entry: the string under \<^verbatim>\<open>id\<close> of an object.\<close>

definition resultId :: "json \<Rightarrow> string option" where
  "resultId v =
     (case v of
        JObj kvs \<Rightarrow> (case map_of kvs ''id'' of Some (JStr s) \<Rightarrow> Some s | _ \<Rightarrow> None)
      | _ \<Rightarrow> None)"

definition isEntry :: "json \<Rightarrow> bool" where
  "isEntry v = (resultId v \<noteq> None)"

text \<open>The text stored under the history key, if any.\<close>

definition persisted :: "localStorage option \<Rightarrow> string option" where
  "persisted window = (case window of None \<Rightarrow> None | Some ls \<Rightarrow> ls KEY)"

text \<open>The stored text is the serialisation of the list in memory.\<close>

definition inSync :: "(real \<Rightarrow> string) \<Rightarrow> hookState \<Rightarrow> bool" where
  "inSync ns st = (persisted (snd st) = Some (JSON_stringify ns (JArr (fst st))))"

fun isArray :: "json \<Rightarrow> bool" where
  "isArray (JArr xs) = True"
| "isArray v = False"

text \<open>A stored value that is missing, is not valid JSON, or is not a JSON array.\<close>

definition unusable :: "(string \<Rightarrow> real option) \<Rightarrow> string option \<Rightarrow> bool" where
  "unusable nr stored =
     (case stored of
        None \<Rightarrow> True
      | Some raw \<Rightarrow> (case JSON_parse nr raw of None \<Rightarrow> True | Some v \<Rightarrow> \<not> isArray v))"

section \<open>Worked examples\<close>

text \<open>
  A finite excerpt of the engine's number functions, enough for the numbers of the
  examples below.
\<close>

definition exampleNumberToString :: "real \<Rightarrow> string" where
  "exampleNumberToString x =
     (if x = 150 then ''150'' else if x = 12 then ''12'' else if x = 90 then ''90'' else ''0'')"

definition exampleParseNumber :: "string \<Rightarrow> real option" where
  "exampleParseNumber s =
     (if s = ''150'' then Some 150 else if s = ''12'' then Some 12 else if s = ''90'' then Some 90
      else if s = ''0'' then Some 0 else None)"

definition exampleArrow :: ArrowSelection where
  "exampleArrow = \<lparr>latitude = 12, longitude = 90, bearingDeg = 0, lengthMeters = 150\<rparr>"

definition exampleMapState :: MapStateSnapshot where
  "exampleMapState =
     \<lparr>zoom = 12, center = \<lparr>center_latitude = 12, center_longitude = 90\<rparr>,
      bounds = \<lparr>north = 12, south = 12, east = 90, west = 90\<rparr>,
      style = ''https://basemaps.cartocdn.com/gl/voyager-gl-style/style.json''\<rparr>"

definition exampleResult :: "string \<Rightarrow> PovResult" where
  "exampleResult i =
     \<lparr>pov_id = i, createdAt = 0,
      request = \<lparr>req_prompt = ''busy bazaar street at dusk'', req_arrow = exampleArrow,
                 req_map = exampleMapState\<rparr>,
      pov_mapSnapshotDataUrl = ''data:image/jpeg;base64,AAAA'',
      pov_imageDataUrl = ''data:image/svg+xml;base64,BBBB'',
      pov_model = Some ''mock'', safetyLabels = None\<rparr>"

text \<open>A runtime without credential, and one with a credential whose transports are given.\<close>

definition exampleToFixed :: "nat \<Rightarrow> real \<Rightarrow> string" where
  "exampleToFixed d x = exampleNumberToString x @ ''.'' @ replicate d (CHR ''0'')"

definition mockRuntime :: Runtime where
  "mockRuntime =
     \<lparr>GOOGLE_API_KEY = None, GEMINI_API_KEY = Some [], GEMINI_IMAGE_MODEL = None,
      randomUUID = ''3b241101-e2bb-4255-8caf-4136c566a962'',
      numberToString = exampleNumberToString, toFixed = exampleToFixed,
      sdkService = (\<lambda>rq. SdkThrows (Error ''unused'')), restService = (\<lambda>rq. RestNotOk 503)\<rparr>"

definition keyedRuntime :: "SdkOutcome \<Rightarrow> RestOutcome \<Rightarrow> Runtime" where
  "keyedRuntime sdk rest =
     \<lparr>GOOGLE_API_KEY = None, GEMINI_API_KEY = Some ''key'', GEMINI_IMAGE_MODEL = None,
      randomUUID = ''3b241101-e2bb-4255-8caf-4136c566a962'',
      numberToString = exampleNumberToString, toFixed = exampleToFixed,
      sdkService = (\<lambda>rq. sdk), restService = (\<lambda>rq. rest)\<rparr>"

definition imageResponse :: GenResponse where
  "imageResponse =
     \<lparr>candidates = Some [\<lparr>content = Some \<lparr>parts = Some
        [\<lparr>inlineData = None\<rparr>,
         \<lparr>inlineData = Some \<lparr>mimeType = Some ''image/png'', data = Some ''iVBOR''\<rparr>\<rparr>]\<rparr>\<rparr>]\<rparr>"

definition textOnlyResponse :: GenResponse where
  "textOnlyResponse =
     \<lparr>candidates = Some [\<lparr>content = Some \<lparr>parts = Some [\<lparr>inlineData = None\<rparr>]\<rparr>\<rparr>]\<rparr>"

text \<open>
  The two requests the handler is to send for the body with the caption \<^verbatim>\<open>dusk\<close>
  and the example arrow, and a runtime whose transports answer these two requests only:
  the SDK without an image, the REST endpoint with one.
\<close>

definition exampleParts :: "RequestPart list" where
  "exampleParts =
     [TextPart (''Generate an image of what the red arrow sees. Use the map snapshot as spatial context and viewpoint.''
                @ [CHR 0x0A] @ ''Location (lat,lng): 12.00000, 90.00000. Direction bearing: 0''
                @ [CHR 0xC2, CHR 0xB0] @ ''. Length ~150m.''
                @ [CHR 0x0A] @ ''Bounds N12.0000 S12.0000 E90.0000 W90.0000. Zoom 12.''
                @ [CHR 0x0A] @ ''User caption (optional): dusk''
                @ [CHR 0x0A] @ ''Label AI-generated if watermarks are supported.''),
      InlinePart ''image/jpeg'' ''AAAA'']"

definition exampleSdkRequest :: SdkRequest where
  "exampleSdkRequest =
     \<lparr>sdk_apiKey = ''key'', sdk_model = ''gemini-2.5-flash-image-preview'',
      sdk_parts = exampleParts, sdk_responseMimeType = ''image/png''\<rparr>"

definition exampleRestRequest :: RestRequest where
  "exampleRestRequest =
     \<lparr>rest_url = ''https://generativelanguage.googleapis.com/v1beta/models/gemini-2.5-flash-image-preview:generateContent?key=key'',
      rest_parts = exampleParts\<rparr>"

definition strictRuntime :: Runtime where
  "strictRuntime =
     \<lparr>GOOGLE_API_KEY = None, GEMINI_API_KEY = Some ''key'', GEMINI_IMAGE_MODEL = None,
      randomUUID = ''3b241101-e2bb-4255-8caf-4136c566a962'',
      numberToString = exampleNumberToString, toFixed = exampleToFixed,
      sdkService = (\<lambda>rq. if rq = exampleSdkRequest then SdkReturns textOnlyResponse
                         else SdkThrows (Error ''unexpected request'')),
      restService = (\<lambda>rq. if rq = exampleRestRequest then RestOk imageResponse
                          else RestNotOk 404)\<rparr>"

definition exampleBody :: "string option \<Rightarrow> ArrowSelection option \<Rightarrow> GenerateBody" where
  "exampleBody p a =
     \<lparr>prompt = p, arrow = a, mapState = exampleMapState,
      mapSnapshotDataUrl = Some ''data:image/jpeg;base64,AAAA''\<rparr>"

section \<open>Properties of the generation route\<close>

subsection \<open>Mock mode\<close>

lemma mock_present_prompt:
  assumes "\<not> truthy (apiKey rt)" and "prompt body = Some p"
  shows "POST rt body =
     (Ok200 \<lparr>id' = randomUUID rt,
             imageDataUrl = ''data:image/svg+xml;base64,'' @ toBase64 (svgHead @ take 90 (escapeHtml p) @ svgTail),
             model = ''mock''\<rparr>, [])"
  using assms by (simp add: POST_def synthMockImage_def mockSvg_def mockCaption_def)

lemma toBase64_examples:
  "toBase64 ''<svg>'' = ''PHN2Zz4=''"
  "toBase64 ''Ma'' = ''TWE=''"
  "toBase64 [CHR 0xE9] = ''w6k=''"
  by code_simp+

text \<open>The whole answer for the caption \<^verbatim>\<open>a <b>\<close>.\<close>

lemma mock_image_example:
  "POST mockRuntime (exampleBody (Some ''a <b>'') None) =
     (Ok200 \<lparr>id' = ''3b241101-e2bb-4255-8caf-4136c566a962'',
        imageDataUrl =
        ''data:image/svg+xml;base64,PHN2ZyB4bWxucz0naHR0cDovL3d3dy53My5vcmcvMjAwMC9zdmcnIH'' @
        ''dpZHRoPSc4MDAnIGhlaWdodD0nNDUwJz4KICAgIDxyZWN0IHdpZHRoPScxMDAlJyBoZWlnaHQ9JzEwMC'' @
        ''UnIGZpbGw9JyNmM2Y0ZjYnLz4KICAgIDx0ZXh0IHg9JzUwJScgeT0nNDUlJyBkb21pbmFudC1iYXNlbG'' @
        ''luZT0nbWlkZGxlJyB0ZXh0LWFuY2hvcj0nbWlkZGxlJyBmb250LWZhbWlseT0nc2Fucy1zZXJpZicgZm'' @
        ''9udC1zaXplPScyMCcgZmlsbD0nIzM3NDE1MSc+TW9jayBpbWFnZTwvdGV4dD4KICAgIDx0ZXh0IHg9Jz'' @
        ''UwJScgeT0nNTUlJyBkb21pbmFudC1iYXNlbGluZT0nbWlkZGxlJyB0ZXh0LWFuY2hvcj0nbWlkZGxlJy'' @
        ''Bmb250LWZhbWlseT0nc2Fucy1zZXJpZicgZm9udC1zaXplPScxNCcgZmlsbD0nIzZiNzI4MCc+YSAmbH'' @
        ''Q7YiZndDs8L3RleHQ+CiAgPC9zdmc+'',
        model = ''mock''\<rparr>, [])"
  by code_simp

lemma mock_caption_cuts_entity:
  "mockCaption (replicate 89 (CHR ''a'') @ ''&'') = replicate 89 (CHR ''a'') @ ''&''"
  by (simp add: mockCaption_def escapeHtml_def replaceAll_def)

text \<open>
  C1. Without a credential, generate never fails and answers with a result tagged
  \<^verbatim>\<open>mock\<close> whose placeholder embeds the caption. The code does not: for a body
  without a \<^verbatim>\<open>prompt\<close> property (what the page sends for an empty caption), the
  handler answers with status 500.
\<close>

theorem mock_absent_prompt_fails:
  "POST mockRuntime (exampleBody None (Some exampleArrow))
     = (Err500 ''Cannot read properties of undefined (reading 'replace')'', [])"
  by (simp add: POST_def apiKey_def js_or_def synthMockImage_def mockRuntime_def exampleBody_def)

text \<open>
  C10. In mock mode the image depends on the prompt only: two requests with the same
  prompt get the same \<^verbatim>\<open>imageDataUrl\<close>, whatever the arrow, the map state, the
  snapshot and the random identifier are.
\<close>

theorem mock_image_depends_only_on_prompt:
  assumes "\<not> truthy (apiKey rt1)" and "\<not> truthy (apiKey rt2)"
    and "prompt b1 = prompt b2"
  shows "responseImage (fst (POST rt1 b1)) = responseImage (fst (POST rt2 b2))
       \<and> (\<forall>p. prompt b1 = Some p \<longrightarrow>
             responseImage (fst (POST rt1 b1))
               = Some (''data:image/svg+xml;base64,'' @ toBase64 (mockSvg p)))"
  using assms by (auto simp add: POST_def synthMockImage_def split: option.splits)

theorem mock_image_depends_only_on_prompt_witness:
  "\<not> truthy (apiKey mockRuntime)
   \<and> \<not> truthy (apiKey (mockRuntime\<lparr>randomUUID := ''0c9f6bd2-5a0e-4c55-9d53-8a8c21c0a111''\<rparr>))
   \<and> prompt (exampleBody (Some ''a <b>'') (Some exampleArrow)) = prompt (exampleBody (Some ''a <b>'') None)
   \<and> responseImage (fst (POST mockRuntime (exampleBody (Some ''a <b>'') (Some exampleArrow))))
       = responseImage (fst (POST (mockRuntime\<lparr>randomUUID := ''0c9f6bd2-5a0e-4c55-9d53-8a8c21c0a111''\<rparr>)
                                  (exampleBody (Some ''a <b>'') None)))
   \<and> responseImage (fst (POST mockRuntime (exampleBody (Some ''a <b>'') (Some exampleArrow))))
       = Some (''data:image/svg+xml;base64,'' @ toBase64 (svgHead @ ''a &lt;b&gt;'' @ svgTail))"
proof -
  let ?rt2 = "mockRuntime\<lparr>randomUUID := ''0c9f6bd2-5a0e-4c55-9d53-8a8c21c0a111''\<rparr>"
  let ?b1 = "exampleBody (Some ''a <b>'') (Some exampleArrow)"
  let ?b2 = "exampleBody (Some ''a <b>'') None"
  have k1: "\<not> truthy (apiKey mockRuntime)" by (simp add: apiKey_def js_or_def mockRuntime_def)
  have k2: "\<not> truthy (apiKey ?rt2)" by (simp add: apiKey_def js_or_def mockRuntime_def)
  have p: "prompt ?b1 = prompt ?b2" by (simp add: exampleBody_def)
  have p1: "prompt ?b1 = Some ''a <b>''" by (simp add: exampleBody_def)
  have svg: "mockSvg ''a <b>'' = svgHead @ ''a &lt;b&gt;'' @ svgTail"
    by (simp add: mockSvg_def mockCaption_def escapeHtml_def replaceAll_def)
  from mock_image_depends_only_on_prompt[OF k1 k2 p]
  have r: "responseImage (fst (POST mockRuntime ?b1)) = responseImage (fst (POST ?rt2 ?b2))"
    and r': "responseImage (fst (POST mockRuntime ?b1))
               = Some (''data:image/svg+xml;base64,'' @ toBase64 (mockSvg ''a <b>''))"
    using p1 by blast+
  have r2: "responseImage (fst (POST mockRuntime ?b1))
              = Some (''data:image/svg+xml;base64,'' @ toBase64 (svgHead @ ''a &lt;b&gt;'' @ svgTail))"
    using r' by (simp only: svg)
  show ?thesis by (intro conjI) (rule k1, rule k2, rule p, rule r, rule r2)
qed

subsection \<open>With a credential\<close>

text \<open>What is sent for the example body.\<close>

lemma request_examples:
  "dataUrlToPart ''data:image/jpeg;base64,AAAA'' = InlinePart ''image/jpeg'' ''AAAA''"
  "dataUrlToPart ''AAAA'' = InlinePart ''image/jpeg'' []"
  "encodeURIComponent ''gemini-2.5-flash-image-preview'' = ''gemini-2.5-flash-image-preview''"
  "encodeURIComponent ''models/a b'' = ''models%2Fa%20b''"
  "rest_url (restRequest (keyedRuntime sdk rest) (exampleBody None None))
     = ''https://generativelanguage.googleapis.com/v1beta/models/gemini-2.5-flash-image-preview:generateContent?key=key''"
  "sdk_parts (sdkRequest (keyedRuntime sdk rest) (exampleBody (Some ''dusk'') None))
     = [TextPart (''Generate an image of what the red arrow sees. Use the map snapshot as spatial context and viewpoint.''
                  @ [CHR 0x0A] @ ''No directional arrow provided.''
                  @ [CHR 0x0A] @ ''Bounds N12.0000 S12.0000 E90.0000 W90.0000. Zoom 12.''
                  @ [CHR 0x0A] @ ''User caption (optional): dusk''
                  @ [CHR 0x0A] @ ''Label AI-generated if watermarks are supported.''),
        InlinePart ''image/jpeg'' ''AAAA'']"
  by code_simp+

lemma strict_requests:
  "sdkRequest strictRuntime (exampleBody (Some ''dusk'') (Some exampleArrow)) = exampleSdkRequest"
  "restRequest strictRuntime (exampleBody (Some ''dusk'') (Some exampleArrow)) = exampleRestRequest"
  by code_simp+



section \<open>Properties of the arrow overlay and of the click bearing\<close>

lemma sqrt_scaled_unit:
  fixes L s c :: real
  assumes "0 \<le> L" and "s\<^sup>2 + c\<^sup>2 = 1"
  shows "sqrt ((s * L)\<^sup>2 + (c * L)\<^sup>2) = L"
proof -
  have "(s * L)\<^sup>2 + (c * L)\<^sup>2 = L\<^sup>2 * (s\<^sup>2 + c\<^sup>2)"
    by (simp add: power_mult_distrib algebra_simps)
  also have "\<dots> = L\<^sup>2" using assms by simp
  finally show ?thesis using assms by simp
qed

lemma arrowPath_points:
  "lineFrom (arrowPath p b w h) = p"
  "lineTo (arrowPath p b w h)
     = (fst p + (min w h / 4) * sin (b * pi / 180), snd p - (min w h / 4) * cos (b * pi / 180))"
  "headLeft (arrowPath p b w h)
     = (fst (lineTo (arrowPath p b w h)) - 12 * sin (b * pi / 180 - 22.5 * pi / 180),
        snd (lineTo (arrowPath p b w h)) + 12 * cos (b * pi / 180 - 22.5 * pi / 180))"
  "headRight (arrowPath p b w h)
     = (fst (lineTo (arrowPath p b w h)) - 12 * sin (b * pi / 180 + 22.5 * pi / 180),
        snd (lineTo (arrowPath p b w h)) + 12 * cos (b * pi / 180 + 22.5 * pi / 180))"
proof -
  have e: "22.5 * pi / 180 = pi / 8" by simp
  show "lineFrom (arrowPath p b w h) = p" by (simp add: arrowPath_def Let_def)
  show "lineTo (arrowPath p b w h)
     = (fst p + (min w h / 4) * sin (b * pi / 180), snd p - (min w h / 4) * cos (b * pi / 180))"
    by (simp add: arrowPath_def Let_def)
  show "headLeft (arrowPath p b w h)
     = (fst (lineTo (arrowPath p b w h)) - 12 * sin (b * pi / 180 - 22.5 * pi / 180),
        snd (lineTo (arrowPath p b w h)) + 12 * cos (b * pi / 180 - 22.5 * pi / 180))"
    unfolding e by (simp add: arrowPath_def Let_def)
  show "headRight (arrowPath p b w h)
     = (fst (lineTo (arrowPath p b w h)) - 12 * sin (b * pi / 180 + 22.5 * pi / 180),
        snd (lineTo (arrowPath p b w h)) + 12 * cos (b * pi / 180 + 22.5 * pi / 180))"
    unfolding e by (simp add: arrowPath_def Let_def)
qed

lemma arrowPath_end_distance:
  assumes "0 < w" and "0 < h"
  shows "pixelDistance (lineFrom (arrowPath p b w h)) (lineTo (arrowPath p b w h)) = min w h / 4"
proof -
  have "0 \<le> min w h / 4" using assms by simp
  from sqrt_scaled_unit[OF this, of "sin (b * pi / 180)" "cos (b * pi / 180)"]
  show ?thesis
    by (simp add: arrowPath_def pixelDistance_def Let_def power2_eq_square algebra_simps)
qed

lemma arrowPath_head_distance:
  "pixelDistance (lineTo (arrowPath p b w h)) (headLeft (arrowPath p b w h)) = 12"
  "pixelDistance (lineTo (arrowPath p b w h)) (headRight (arrowPath p b w h)) = 12"
  using sqrt_scaled_unit[of 12 "sin (b * pi / 180 - pi / 8)" "cos (b * pi / 180 - pi / 8)"]
    sqrt_scaled_unit[of 12 "sin (b * pi / 180 + pi / 8)" "cos (b * pi / 180 + pi / 8)"]
  by (simp_all add: arrowPath_def pixelDistance_def Let_def power2_eq_square algebra_simps)

lemma arrowPath_up_right:
  "lineTo (arrowPath p 0 w h) = (fst p, snd p - min w h / 4)"
  "lineTo (arrowPath p 90 w h) = (fst p + min w h / 4, snd p)"
  by (simp_all add: arrowPath_def Let_def)

text \<open>
  C3, as the spec states it, takes the length of the arrow as the length of the shaft.
  The code does not: for the example arrow of length 150 at bearing 0 on a canvas of
  400 by 600, the shaft ends 100 pixels above the origin, not 150.
\<close>

theorem arrow_length_counterexample:
  "lengthMeters exampleArrow = 150 \<and> bearingDeg exampleArrow = 0
   \<and> drawOverlay_centered (Some exampleArrow) 400 600 = Some (arrowPath (200, 300) 0 400 600)
   \<and> lineTo (arrowPath (200, 300) 0 400 600) = (200, 200)
   \<and> pixelDistance (200, 300) (lineTo (arrowPath (200, 300) 0 400 600)) = 100
   \<and> lineTo (arrowPath (200, 300) 0 400 600)
        \<noteq> (200 + lengthMeters exampleArrow * sin (bearingDeg exampleArrow * pi / 180),
            300 - lengthMeters exampleArrow * cos (bearingDeg exampleArrow * pi / 180))
   \<and> pixelDistance (200, 300) (lineTo (arrowPath (200, 300) 0 400 600)) \<noteq> lengthMeters exampleArrow"
proof -
  have e: "lengthMeters exampleArrow = 150" "bearingDeg exampleArrow = 0"
    by (simp_all add: exampleArrow_def)
  have c: "drawOverlay_centered (Some exampleArrow) 400 600 = Some (arrowPath (200, 300) 0 400 600)"
    by (simp add: drawOverlay_centered_def e)
  have t: "lineTo (arrowPath (200, 300) 0 400 600) = (200, 200)"
    by (simp add: arrowPath_def Let_def)
  have d: "pixelDistance (200, 300) (lineTo (arrowPath (200, 300) 0 400 600)) = 100"
    unfolding t by (simp add: pixelDistance_def)
  have n: "lineTo (arrowPath (200, 300) 0 400 600)
        \<noteq> (200 + lengthMeters exampleArrow * sin (bearingDeg exampleArrow * pi / 180),
            300 - lengthMeters exampleArrow * cos (bearingDeg exampleArrow * pi / 180))"
    unfolding t e by simp
  have n2: "pixelDistance (200, 300) (lineTo (arrowPath (200, 300) 0 400 600)) \<noteq> lengthMeters exampleArrow"
    unfolding d e by simp
  show ?thesis by (intro conjI) (rule e(1), rule e(2), rule c, rule t, rule d, rule n, rule n2)
qed

text \<open>
  C3, amended. For every bearing and every canvas of positive width and height, both
  versions of the overlay put the end of the shaft at
  \<open>origin + L (sin bearing, - cos bearing)\<close>, where \<open>L\<close> is a quarter of the smaller
  canvas side and not the length of the arrow (which the drawing does not depend on):
  at pixel distance \<open>L\<close> from the origin, straight up for 0 degrees and to the right
  for 90 degrees. The two points of the head lie 12 pixels from the end, turned by 22.5
  degrees to either side.
\<close>

theorem arrow_overlay_geometry:
  assumes "0 < w" and "0 < h" and "bearingDeg a = b" and "L = min w h / 4"
  shows "drawOverlay (Some proj) (Some a) w h = Some (arrowPath (proj (longitude a) (latitude a)) b w h)
       \<and> drawOverlay_centered (Some a) w h = Some (arrowPath (w / 2, h / 2) b w h)
       \<and> (\<forall>m. drawOverlay (Some proj) (Some (a\<lparr>lengthMeters := m\<rparr>)) w h
                = drawOverlay (Some proj) (Some a) w h
              \<and> drawOverlay_centered (Some (a\<lparr>lengthMeters := m\<rparr>)) w h
                = drawOverlay_centered (Some a) w h)
       \<and> (\<forall>p. lineFrom (arrowPath p b w h) = p
             \<and> lineTo (arrowPath p b w h)
                 = (fst p + L * sin (b * pi / 180), snd p - L * cos (b * pi / 180))
             \<and> pixelDistance p (lineTo (arrowPath p b w h)) = L
             \<and> (b = 0 \<longrightarrow> lineTo (arrowPath p b w h) = (fst p, snd p - L))
             \<and> (b = 90 \<longrightarrow> lineTo (arrowPath p b w h) = (fst p + L, snd p))
             \<and> headLeft (arrowPath p b w h)
                 = (fst (lineTo (arrowPath p b w h)) - 12 * sin (b * pi / 180 - 22.5 * pi / 180),
                    snd (lineTo (arrowPath p b w h)) + 12 * cos (b * pi / 180 - 22.5 * pi / 180))
             \<and> headRight (arrowPath p b w h)
                 = (fst (lineTo (arrowPath p b w h)) - 12 * sin (b * pi / 180 + 22.5 * pi / 180),
                    snd (lineTo (arrowPath p b w h)) + 12 * cos (b * pi / 180 + 22.5 * pi / 180))
             \<and> pixelDistance (lineTo (arrowPath p b w h)) (headLeft (arrowPath p b w h)) = 12
             \<and> pixelDistance (lineTo (arrowPath p b w h)) (headRight (arrowPath p b w h)) = 12)"
proof -
  have m: "min w h / 4 = L" using assms(4) by simp
  have wh: "0 < w" "0 < h" by (rule assms(1), rule assms(2))
  have d: "\<And>p. pixelDistance p (lineTo (arrowPath p b w h)) = L"
    using arrowPath_end_distance[OF wh, of _ b] m by (simp add: arrowPath_points(1))
  have up: "\<And>p. b = 0 \<longrightarrow> lineTo (arrowPath p b w h) = (fst p, snd p - L)"
    using arrowPath_up_right(1)[of _ w h] m by simp
  have right: "\<And>p. b = 90 \<longrightarrow> lineTo (arrowPath p b w h) = (fst p + L, snd p)"
    using arrowPath_up_right(2)[of _ w h] m by simp
  have e: "\<And>p. lineTo (arrowPath p b w h)
                 = (fst p + L * sin (b * pi / 180), snd p - L * cos (b * pi / 180))"
    using arrowPath_points(2)[of _ b w h] m by simp
  have o: "drawOverlay (Some proj) (Some a) w h = Some (arrowPath (proj (longitude a) (latitude a)) b w h)"
    "drawOverlay_centered (Some a) w h = Some (arrowPath (w / 2, h / 2) b w h)"
    using assms(3) by (simp_all add: drawOverlay_def drawOverlay_centered_def)
  have i: "\<forall>m. drawOverlay (Some proj) (Some (a\<lparr>lengthMeters := m\<rparr>)) w h
                = drawOverlay (Some proj) (Some a) w h
              \<and> drawOverlay_centered (Some (a\<lparr>lengthMeters := m\<rparr>)) w h
                = drawOverlay_centered (Some a) w h"
    by (simp add: drawOverlay_def drawOverlay_centered_def)
  show ?thesis
    using o i d up right e arrowPath_points(1,3,4)[of _ b w h] arrowPath_head_distance[of _ b w h]
    by (intro conjI allI) blast+
qed

theorem arrow_overlay_geometry_witness:
  "(0::real) < 400 \<and> (0::real) < 600 \<and> bearingDeg (exampleArrow\<lparr>bearingDeg := 90\<rparr>) = 90
   \<and> (100::real) = min 400 600 / 4
   \<and> drawOverlay_centered (Some (exampleArrow\<lparr>bearingDeg := 90\<rparr>)) 400 600
        = Some (arrowPath (200, 300) 90 400 600)
   \<and> drawOverlay_centered (Some (exampleArrow\<lparr>bearingDeg := 90, lengthMeters := 400\<rparr>)) 400 600
        = drawOverlay_centered (Some (exampleArrow\<lparr>bearingDeg := 90\<rparr>)) 400 600
   \<and> lineTo (arrowPath (200, 300) 90 400 600) = (300, 300)
   \<and> pixelDistance (200, 300) (lineTo (arrowPath (200, 300) 90 400 600)) = 100
   \<and> pixelDistance (lineTo (arrowPath (200, 300) 90 400 600)) (headLeft (arrowPath (200, 300) 90 400 600)) = 12"
proof -
  have h: "(0::real) < 400" "(0::real) < 600"
    "bearingDeg (exampleArrow\<lparr>bearingDeg := 90\<rparr>) = 90" "(100::real) = min 400 600 / 4" by simp_all
  note t = arrow_overlay_geometry[OF h, of "\<lambda>lng lat. (lng, lat)"]
  have c: "drawOverlay_centered (Some (exampleArrow\<lparr>bearingDeg := 90\<rparr>)) 400 600
             = Some (arrowPath (400 / 2, 600 / 2) 90 400 600)"
    using t by blast
  have c': "drawOverlay_centered (Some (exampleArrow\<lparr>bearingDeg := 90\<rparr>)) 400 600
             = Some (arrowPath (200, 300) 90 400 600)"
    using c by simp
  have i: "drawOverlay_centered (Some (exampleArrow\<lparr>bearingDeg := 90, lengthMeters := 400\<rparr>)) 400 600
        = drawOverlay_centered (Some (exampleArrow\<lparr>bearingDeg := 90\<rparr>)) 400 600"
    using t by blast
  note a = spec[OF conjunct2[OF conjunct2[OF conjunct2[OF t]]], of "(200, 300)"]
  have p1: "lineTo (arrowPath (200, 300) 90 400 600) = (300, 300)"
    using a by auto
  have p2: "pixelDistance (200, 300) (lineTo (arrowPath (200, 300) 90 400 600)) = 100"
    using a by blast
  have p3: "pixelDistance (lineTo (arrowPath (200, 300) 90 400 600))
              (headLeft (arrowPath (200, 300) 90 400 600)) = 12"
    using a by blast
  show ?thesis
    by (intro conjI)
       (rule h(1), rule h(2), rule h(3), rule h(4), rule c', rule i, rule p1, rule p2, rule p3)
qed

lemma atan2_range: "- pi < atan2 y x \<and> atan2 y x \<le> pi"
proof -
  have a: "- (pi / 2) < arctan (y / x)" "arctan (y / x) < pi / 2"
    by (rule arctan_lbound, rule arctan_ubound)
  show ?thesis
  proof (cases "0 < x")
    case True
    then show ?thesis using a pi_gt_zero by (simp add: atan2_def)
  next
    case False
    show ?thesis
    proof (cases "x < 0")
      case True
      show ?thesis
      proof (cases "0 \<le> y")
        case True
        with \<open>x < 0\<close> have "y / x \<le> 0" by (simp add: divide_nonneg_neg)
        then have "arctan (y / x) \<le> 0" by (simp add: arctan_le_zero_iff)
        then show ?thesis using a \<open>x < 0\<close> True pi_gt_zero by (simp add: atan2_def)
      next
        case False
        with \<open>x < 0\<close> have "0 < y / x" by (simp add: divide_neg_neg)
        then have "0 < arctan (y / x)" by (simp add: zero_less_arctan_iff)
        then show ?thesis using a \<open>x < 0\<close> False pi_gt_zero by (simp add: atan2_def)
      qed
    next
      case False
      with \<open>\<not> 0 < x\<close> have "x = 0" by simp
      then have "atan2 y x = pi / 2 \<or> atan2 y x = - (pi / 2) \<or> atan2 y x = 0"
        by (simp add: atan2_def)
      then show ?thesis using pi_gt_zero by linarith
    qed
  qed
qed

lemma js_rem_360:
  assumes "- 180 < d" and "d \<le> 180"
  shows "js_rem (d + 360) 360 = (if d < 0 then d + 360 else d)"
proof (cases "d < 0")
  case True
  then have "\<lfloor>(d + 360) / 360\<rfloor> = 0" using assms by (simp add: floor_eq_iff)
  moreover have "0 \<le> (d + 360) / 360" using assms by simp
  ultimately show ?thesis using True by (simp add: js_rem_def)
next
  case False
  then have "\<lfloor>(d + 360) / 360\<rfloor> = 1" using assms by (simp add: floor_eq_iff)
  moreover have "0 \<le> (d + 360) / 360" using assms by simp
  ultimately show ?thesis using False by (simp add: js_rem_def)
qed

lemma degrees_range:
  assumes "- pi < t" and "t \<le> pi"
  shows "- 180 < t * 180 / pi \<and> t * 180 / pi \<le> 180"
proof -
  have "0 < pi" by simp
  then show ?thesis using assms by (simp add: field_simps)
qed

lemma clickBearingDeg_eq:
  "clickBearingDeg c p =
     (let d = atan2 ((fst p - center_longitude c) * cos (center_latitude c * pi / 180))
                    (snd p - center_latitude c) * 180 / pi
      in if d < 0 then d + 360 else d)"
  using js_rem_360 degrees_range[OF conjunct1[OF atan2_range] conjunct2[OF atan2_range]]
  by (simp add: clickBearingDeg_def Let_def)

lemma clickBearingDeg_range: "0 \<le> clickBearingDeg c p \<and> clickBearingDeg c p < 360"
  using degrees_range[OF conjunct1[OF atan2_range] conjunct2[OF atan2_range],
      of "(fst p - center_longitude c) * cos (center_latitude c * pi / 180)" "snd p - center_latitude c"]
  by (auto simp add: clickBearingDeg_eq Let_def)

text \<open>
  C4. For every map centre and every clicked point, the bearing of the new arrow is
  \<open>atan2\<close> of the longitude difference times the cosine of the centre latitude, and
  the latitude difference, in degrees, with 360 added when it is negative: it lies in
  \<open>[0, 360)\<close>.
\<close>

theorem click_bearing_normalized:
  "\<exists>a. onMapClick (Some c) p prev = Some a
     \<and> latitude a = snd p \<and> longitude a = fst p \<and> lengthMeters a = 150
     \<and> bearingDeg a =
         (let d = atan2 ((fst p - center_longitude c) * cos (center_latitude c * pi / 180))
                        (snd p - center_latitude c) * 180 / pi
          in if d < 0 then d + 360 else d)
     \<and> 0 \<le> bearingDeg a \<and> bearingDeg a < 360"
  using clickBearingDeg_range[of c p] clickBearingDeg_eq[of c p]
  by (simp add: onMapClick_def)

theorem click_bearing_normalized_witness:
  "\<exists>a. onMapClick (Some \<lparr>center_latitude = 0, center_longitude = 0\<rparr>) (- 1, 0) None = Some a
     \<and> bearingDeg a = 270 \<and> 0 \<le> bearingDeg a \<and> bearingDeg a < 360"
proof -
  from click_bearing_normalized[of "\<lparr>center_latitude = 0, center_longitude = 0\<rparr>" "(- 1, 0)" None]
  obtain a where a: "onMapClick (Some \<lparr>center_latitude = 0, center_longitude = 0\<rparr>) (- 1, 0) None = Some a"
    and b: "bearingDeg a =
         (let d = atan2 ((fst (- 1 :: real, 0 :: real) - center_longitude \<lparr>center_latitude = 0, center_longitude = 0\<rparr>)
                           * cos (center_latitude \<lparr>center_latitude = 0, center_longitude = 0\<rparr> * pi / 180))
                        (snd (- 1 :: real, 0 :: real) - center_latitude \<lparr>center_latitude = 0, center_longitude = 0\<rparr>) * 180 / pi
          in if d < 0 then d + 360 else d)"
    and r: "0 \<le> bearingDeg a" "bearingDeg a < 360"
    by blast
  have "bearingDeg a = 270" unfolding b by (simp add: atan2_def Let_def)
  with a r show ?thesis by blast
qed

section \<open>Reading back what JSON.stringify writes\<close>

lemma hexVal_hexDigit_upto: "list_all (\<lambda>n. hexVal (hexDigit n) = Some n) [0..<16]"
  by code_simp

lemma hexVal_hexDigit: "n < 16 \<Longrightarrow> hexVal (hexDigit n) = Some n"
  using hexVal_hexDigit_upto by (simp add: list_all_iff)

lemma hex4_control:
  assumes "n < 256"
  shows "hex4 (CHR ''0'') (CHR ''0'') (hexDigit (n div 16)) (hexDigit (n mod 16)) = Some n"
proof -
  have a: "n div 16 < 16" using assms by (simp add: div_less_iff_less_mult)
  have b: "n mod 16 < 16" by simp
  have z: "hexVal (CHR ''0'') = Some 0" by (simp add: hexVal_def)
  show ?thesis using hexVal_hexDigit[OF a] hexVal_hexDigit[OF b] z by (simp add: hex4_def)
qed

lemma of_char_less_256: "(of_char c :: nat) < 256"
  by (cases c) simp

lemma parse_quoteChar: "parseStringBody (quoteChar c @ t) = consChar c (parseStringBody t)"
proof -
  let ?n = "of_char c :: nat"
  have n: "?n < 256" by (rule of_char_less_256)
  show ?thesis
  proof (cases "c = dquote \<or> c = backslash \<or> c = CHR 0x08 \<or> c = CHR 0x0C \<or> c = CHR 0x0A \<or> c = CHR 0x0D \<or> c = CHR 0x09")
    case True
    then show ?thesis
      by (auto simp add: quoteChar_def unescape_def dquote_def backslash_def)
  next
    case simple: False
    show ?thesis
    proof (cases "?n < 32")
      case True
      have q: "quoteChar c = [backslash, CHR ''u'', CHR ''0'', CHR ''0'', hexDigit (?n div 16), hexDigit (?n mod 16)]"
        using simple True by (simp add: quoteChar_def)
      show ?thesis unfolding q using hex4_control[OF n] n
        by (simp add: dquote_def backslash_def)
    next
      case False
      then have "quoteChar c = [c]" using simple by (simp add: quoteChar_def)
      then show ?thesis using simple False by simp
    qed
  qed
qed

lemma parseStringBody_quoted:
  "parseStringBody (concat (map quoteChar s) @ dquote # rest) = Some (s, rest)"
  by (induction s) (simp_all add: parse_quoteChar consChar_def)


lemma skipWs_nonws: "\<not> isWs c \<Longrightarrow> skipWs (c # cs) = c # cs"
  by (simp add: skipWs_def)

lemma stringify_start:
  assumes "wfJson ns nr v"
  shows "\<exists>c cs. JSON_stringify ns v = c # cs \<and> valueStart c"
proof (cases v)
  case (JNum x)
  then show ?thesis using assms
    by (auto simp add: numOk_def valueStart_def isWs_def isDigit_def split: list.splits)
next
  case (JBool b)
  then show ?thesis by (cases b) (simp_all add: valueStart_def isWs_def)
qed (simp_all add: valueStart_def isWs_def quoteJSONString_def dquote_def)

lemma delim_not_numChar: "delim (c # cs) \<Longrightarrow> \<not> isNumChar c"
  by (auto simp add: delim_def isNumChar_def isDigit_def)

lemma takeWhile_token:
  assumes "list_all isNumChar t" "delim rest"
  shows "takeWhile isNumChar (t @ rest) = t" "dropWhile isNumChar (t @ rest) = rest"
proof -
  have r: "takeWhile isNumChar rest = []" "dropWhile isNumChar rest = rest"
    using assms(2) delim_not_numChar by (cases rest; simp)+
  from assms(1) have a: "\<forall>x\<in>set t. isNumChar x" by (simp add: list_all_iff)
  show "takeWhile isNumChar (t @ rest) = t" using a r by (simp add: takeWhile_append2)
  show "dropWhile isNumChar (t @ rest) = rest" using a r by (simp add: dropWhile_append2)
qed

lemma parseValue_atom:
  assumes "delim rest"
  shows "parseValue nr (Suc n) (''null'' @ rest) = Some (JNull, rest)"
    and "parseValue nr (Suc n) (''true'' @ rest) = Some (JBool True, rest)"
    and "parseValue nr (Suc n) (''false'' @ rest) = Some (JBool False, rest)"
    and "parseValue nr (Suc n) (quoteJSONString s @ rest) = Some (JStr s, rest)"
  by (simp_all add: skipWs_def isWs_def dquote_def quoteJSONString_def
        parseStringBody_quoted[unfolded dquote_def])

lemma parseValue_num:
  assumes "numOk ns nr x" "delim rest"
  shows "parseValue nr (Suc n) (ns x @ rest) = Some (JNum x, rest)"
proof -
  from assms(1) obtain c cs where t: "ns x = c # cs" and c: "c = CHR ''-'' \<or> isDigit c"
    and cs: "list_all isNumChar cs" and rd: "nr (ns x) = Some x"
    by (auto simp add: numOk_def split: list.splits)
  have nc: "isNumChar c" using c by (auto simp add: isNumChar_def)
  have all: "list_all isNumChar (c # cs)" using nc cs by simp
  have tw: "takeWhile isNumChar ((c # cs) @ rest) = c # cs" "dropWhile isNumChar ((c # cs) @ rest) = rest"
    using takeWhile_token[OF all assms(2)] by simp_all
  have nw: "\<not> isWs c" "c \<noteq> CHR ''[''" "c \<noteq> CHR ''{''" "c \<noteq> dquote" 
      "c \<noteq> CHR ''t''" "c \<noteq> CHR ''f''" "c \<noteq> CHR ''n''"
    using c by (auto simp add: isWs_def isDigit_def dquote_def)
  have sk: "skipWs ((c # cs) @ rest) = c # (cs @ rest)" using nw(1) by (simp add: skipWs_def)
  have tk: "take 4 (c # cs @ rest) \<noteq> ''true''" "take 5 (c # cs @ rest) \<noteq> ''false''" "take 4 (c # cs @ rest) \<noteq> ''null''"
    using nw by auto
  show ?thesis unfolding t parseValue.simps sk
    using nw c tk tw rd[unfolded t] by simp
qed


lemma commas_start:
  assumes "xs \<noteq> []" "wfJson ns nr (hd xs)"
  shows "\<exists>c cs. commas (map (JSON_stringify ns) xs) @ t = c # cs \<and> valueStart c"
proof -
  from assms(1) obtain x ys where xs: "xs = x # ys" by (cases xs) auto
  from stringify_start[of ns nr x] assms(2) xs
  obtain c cs where c: "JSON_stringify ns x = c # cs" "valueStart c" by auto
  show ?thesis using c xs by (cases ys) auto
qed

lemma parseElements_commas:
  assumes "xs \<noteq> []"
    and "\<forall>x\<in>set xs. wfJson ns nr x \<and> roundtrips ns nr x"
    and "sum_list (map (\<lambda>x. Suc (fuelFor x)) xs) \<le> n"
  shows "parseElements nr n (commas (map (JSON_stringify ns) xs) @ CHR '']'' # rest) = Some (xs, rest)"
  using assms
proof (induction xs arbitrary: n)
  case Nil
  then show ?case by simp
next
  case (Cons x xs)
  from Cons.prems(3) obtain m where n: "n = Suc m" and mx: "fuelFor x \<le> m"
    and ms: "sum_list (map (\<lambda>x. Suc (fuelFor x)) xs) \<le> m"
    by (cases n) auto
  from Cons.prems(2) have rx: "roundtrips ns nr x" by simp
  show ?case
  proof (cases xs)
    case Nil
    have d: "delim (CHR '']'' # rest)" by (simp add: delim_def)
    have "parseValue nr m (JSON_stringify ns x @ CHR '']'' # rest) = Some (x, CHR '']'' # rest)"
      using rx mx d unfolding roundtrips_def by blast
    then show ?thesis using Nil n by (simp add: skipWs_def isWs_def)
  next
    case (Cons y ys)
    let ?t = "commas (map (JSON_stringify ns) xs) @ CHR '']'' # rest"
    have d: "delim (CHR '','' # ?t)" by (simp add: delim_def)
    have pv: "parseValue nr m (JSON_stringify ns x @ CHR '','' # ?t) = Some (x, CHR '','' # ?t)"
      using rx mx d unfolding roundtrips_def by blast
    have ih: "parseElements nr m ?t = Some (xs, rest)"
      using Cons.IH[of m] Cons.prems(2) ms Cons by simp
    show ?thesis using Cons n pv ih by (simp add: skipWs_def isWs_def)
  qed
qed

lemma update_fresh: "k \<notin> fst ` set acc \<Longrightarrow> AList.update k v acc = acc @ [(k, v)]"
  by (induction acc) auto

lemma parseMembers_step:
  "parseMembers nr (Suc m) acc (member ns (k, v) @ t) =
     (case parseValue nr m (JSON_stringify ns v @ t) of
        None \<Rightarrow> None
      | Some (v', r3) \<Rightarrow>
          (case skipWs r3 of
             [] \<Rightarrow> None
           | d # r4 \<Rightarrow>
               if d = CHR '','' then parseMembers nr m (AList.update k v' acc) r4
               else if d = CHR ''}'' then Some (AList.update k v' acc, r4)
               else None))"
  using parseStringBody_quoted[of k "CHR '':'' # JSON_stringify ns v @ t"]
  by (simp add: member_def quoteJSONString_def skipWs_def isWs_def dquote_def)

lemma parseMembers_commas:
  assumes "kvs \<noteq> []"
    and "\<forall>kv\<in>set kvs. wfJson ns nr (snd kv) \<and> roundtrips ns nr (snd kv)"
    and "distinct (map fst (acc @ kvs))"
    and "sum_list (map (\<lambda>kv. Suc (fuelFor (snd kv))) kvs) \<le> n"
  shows "parseMembers nr n acc (commas (map (member ns) kvs) @ CHR ''}'' # rest) = Some (acc @ kvs, rest)"
  using assms
proof (induction kvs arbitrary: n acc)
  case Nil
  then show ?case by simp
next
  case (Cons kv kvs)
  obtain k v where kv: "kv = (k, v)" by (cases kv)
  from Cons.prems(4) obtain m where n: "n = Suc m" and mx: "fuelFor v \<le> m"
    and ms: "sum_list (map (\<lambda>kv. Suc (fuelFor (snd kv))) kvs) \<le> m"
    using kv by (cases n) auto
  from Cons.prems(2) kv have rx: "roundtrips ns nr v" by simp
  from Cons.prems(3) kv have fresh: "k \<notin> fst ` set acc" by auto
  have upd: "AList.update k v acc = acc @ [(k, v)]" by (rule update_fresh[OF fresh])
  show ?case
  proof (cases kvs)
    case Nil
    have d: "delim (CHR ''}'' # rest)" by (simp add: delim_def)
    have pv: "parseValue nr m (JSON_stringify ns v @ CHR ''}'' # rest) = Some (v, CHR ''}'' # rest)"
      using rx mx d unfolding roundtrips_def by blast
    show ?thesis using Nil n kv pv upd
      by (simp add: parseMembers_step skipWs_def isWs_def del: parseMembers.simps)
  next
    case (Cons kv2 kvs2)
    let ?t = "commas (map (member ns) kvs) @ CHR ''}'' # rest"
    have d: "delim (CHR '','' # ?t)" by (simp add: delim_def)
    have pv: "parseValue nr m (JSON_stringify ns v @ CHR '','' # ?t) = Some (v, CHR '','' # ?t)"
      using rx mx d unfolding roundtrips_def by blast
    have "distinct (map fst ((acc @ [(k, v)]) @ kvs))" using Cons.prems(3) kv by simp
    then have ih: "parseMembers nr m (acc @ [(k, v)]) ?t = Some ((acc @ [(k, v)]) @ kvs, rest)"
      using Cons.IH[of "acc @ [(k, v)]" m] Cons.prems(2) ms Cons by simp
    show ?thesis using Cons n kv pv ih upd
      by (simp add: parseMembers_step skipWs_def isWs_def del: parseMembers.simps)
  qed
qed


lemma stringify_obj_member:
  "JSON_stringify ns (JObj kvs) = ''{'' @ commas (map (member ns) kvs) @ ''}''"
proof -
  have "(\<lambda>(k, v). quoteJSONString k @ '':'' @ JSON_stringify ns v) = member ns"
    by (auto simp add: member_def fun_eq_iff)
  then show ?thesis by simp
qed

lemma fuelFor_obj:
  "fuelFor (JObj kvs) = Suc (sum_list (map (\<lambda>kv. Suc (fuelFor (snd kv))) kvs))"
  by (simp add: case_prod_unfold)

lemma members_start:
  assumes "kvs \<noteq> []"
  shows "\<exists>cs. commas (map (member ns) kvs) @ t = dquote # cs"
proof -
  from assms obtain kv ys where xs: "kvs = kv # ys" by (cases kvs) auto
  show ?thesis using xs by (cases ys) (auto simp add: member_def quoteJSONString_def)
qed

lemma wfJson_roundtrips: "wfJson ns nr v \<Longrightarrow> roundtrips ns nr v"
proof (induction v)
  case JNull
  show ?case unfolding roundtrips_def
  proof (intro allI impI)
    fix n rest assume "fuelFor JNull \<le> n" "delim rest"
    then obtain m where "n = Suc m" by (cases n) auto
    then show "parseValue nr n (JSON_stringify ns JNull @ rest) = Some (JNull, rest)"
      using parseValue_atom(1)[OF \<open>delim rest\<close>] by simp
  qed
next
  case (JBool b)
  show ?case unfolding roundtrips_def
  proof (intro allI impI)
    fix n rest assume "fuelFor (JBool b) \<le> n" "delim rest"
    then obtain m where "n = Suc m" by (cases n) auto
    then show "parseValue nr n (JSON_stringify ns (JBool b) @ rest) = Some (JBool b, rest)"
      using parseValue_atom(2,3)[OF \<open>delim rest\<close>] by (cases b) simp_all
  qed
next
  case (JNum x)
  show ?case unfolding roundtrips_def
  proof (intro allI impI)
    fix n rest assume "fuelFor (JNum x) \<le> n" "delim rest"
    then obtain m where "n = Suc m" by (cases n) auto
    then show "parseValue nr n (JSON_stringify ns (JNum x) @ rest) = Some (JNum x, rest)"
      using parseValue_num[OF _ \<open>delim rest\<close>, of ns nr x] JNum by simp
  qed
next
  case (JStr s)
  show ?case unfolding roundtrips_def
  proof (intro allI impI)
    fix n rest assume "fuelFor (JStr s) \<le> n" "delim rest"
    then obtain m where "n = Suc m" by (cases n) auto
    then show "parseValue nr n (JSON_stringify ns (JStr s) @ rest) = Some (JStr s, rest)"
      using parseValue_atom(4)[OF \<open>delim rest\<close>] by simp
  qed
next
  case (JArr xs)
  have el: "\<forall>x\<in>set xs. wfJson ns nr x \<and> roundtrips ns nr x"
    using JArr by (auto simp add: list_all_iff)
  show ?case unfolding roundtrips_def
  proof (intro allI impI)
    fix n rest assume f: "fuelFor (JArr xs) \<le> n" and "delim rest"
    then obtain m where n: "n = Suc m" and m: "sum_list (map (\<lambda>x. Suc (fuelFor x)) xs) \<le> m"
      by (cases n) auto
    show "parseValue nr n (JSON_stringify ns (JArr xs) @ rest) = Some (JArr xs, rest)"
    proof (cases "xs = []")
      case True
      then show ?thesis using n by (simp add: skipWs_def isWs_def)
    next
      case False
      let ?t = "commas (map (JSON_stringify ns) xs) @ CHR '']'' # rest"
      from False el have "wfJson ns nr (hd xs)" by (cases xs) auto
      from commas_start[OF False this, of "CHR '']'' # rest"]
      obtain c cs where c: "?t = c # cs" "valueStart c" by auto
      have pe: "parseElements nr m ?t = Some (xs, rest)"
        by (rule parseElements_commas[OF False el m])
      have sk: "skipWs ?t = c # cs" using c by (simp add: skipWs_def valueStart_def)
      have "parseValue nr (Suc m) (CHR ''['' # ?t) = Some (JArr xs, rest)"
        using pe sk c(2) by (simp add: skipWs_def isWs_def valueStart_def)
      then show ?thesis using n by simp
    qed
  qed
next
  case (JObj kvs)
  have w: "distinct (map fst kvs)" and "list_all (\<lambda>(k, v). wfJson ns nr v) kvs"
    using JObj.prems by simp_all
  then have el: "\<forall>kv\<in>set kvs. wfJson ns nr (snd kv) \<and> roundtrips ns nr (snd kv)"
    using JObj.IH by (fastforce simp add: list_all_iff)
  show ?case unfolding roundtrips_def
  proof (intro allI impI)
    fix n rest assume f: "fuelFor (JObj kvs) \<le> n" and "delim rest"
    from f obtain m where n: "n = Suc m" and m: "sum_list (map (\<lambda>kv. Suc (fuelFor (snd kv))) kvs) \<le> m"
      unfolding fuelFor_obj by (cases n) auto
    show "parseValue nr n (JSON_stringify ns (JObj kvs) @ rest) = Some (JObj kvs, rest)"
    proof (cases "kvs = []")
      case True
      then show ?thesis using n by (simp add: skipWs_def isWs_def)
    next
      case False
      let ?t = "commas (map (member ns) kvs) @ CHR ''}'' # rest"
      from members_start[OF False, of ns "CHR ''}'' # rest"]
      obtain cs where c: "?t = dquote # cs" by auto
      have pe: "parseMembers nr m [] ?t = Some ([] @ kvs, rest)"
        by (rule parseMembers_commas[OF False el _ m]) (simp add: w)
      have sk: "skipWs ?t = dquote # cs" using c by (simp add: skipWs_def isWs_def dquote_def)
      have "parseValue nr (Suc m) (CHR ''{'' # ?t) = Some (JObj kvs, rest)"
        using pe sk by (simp add: skipWs_def isWs_def dquote_def)
      then show ?thesis unfolding n stringify_obj_member by simp
    qed
  qed
qed

lemma length_commas: "sum_list (map length xs) \<le> length (commas xs)"
  by (induction xs rule: commas.induct) auto

lemma length_commas_Suc: 
  "xs \<noteq> [] \<Longrightarrow> sum_list (map (\<lambda>x. Suc (length x)) xs) \<le> Suc (length (commas xs))"
  by (induction xs rule: commas.induct) auto

lemma sum_list_Suc_mono:
  "(\<forall>x\<in>set xs. f x \<le> g x) \<Longrightarrow> sum_list (map (\<lambda>x. Suc (f x)) xs) \<le> sum_list (map (\<lambda>x. Suc (g x)) xs)"
  by (induction xs) auto

lemma fuelFor_le_length: "wfJson ns nr v \<Longrightarrow> fuelFor v \<le> length (JSON_stringify ns v)"
proof (induction v)
  case (JNum x)
  then show ?case by (auto simp add: numOk_def split: list.splits)
next
  case (JBool b)
  then show ?case by simp
next
  case (JArr xs)
  show ?case
  proof (cases "xs = []")
    case True then show ?thesis by simp
  next
    case False
    have "\<forall>x\<in>set xs. fuelFor x \<le> length (JSON_stringify ns x)"
      using JArr by (auto simp add: list_all_iff)
    from sum_list_Suc_mono[of xs fuelFor "\<lambda>x. length (JSON_stringify ns x)", OF this]
    have "sum_list (map (\<lambda>x. Suc (fuelFor x)) xs)
            \<le> sum_list (map (\<lambda>x. Suc (length x)) (map (JSON_stringify ns) xs))"
      by (simp add: comp_def)
    also have "\<dots> \<le> Suc (length (commas (map (JSON_stringify ns) xs)))"
      using False by (intro length_commas_Suc) simp
    finally show ?thesis by simp
  qed
next
  case (JObj kvs)
  show ?case
  proof (cases "kvs = []")
    case True then show ?thesis by simp
  next
    case False
    have "\<forall>kv\<in>set kvs. fuelFor (snd kv) \<le> length (member ns kv)"
    proof
      fix kv assume a: "kv \<in> set kvs"
      obtain k v where kv: "kv = (k, v)" by (cases kv)
      have "wfJson ns nr v" using JObj.prems a kv by (auto simp add: list_all_iff)
      then have "fuelFor v \<le> length (JSON_stringify ns v)" using JObj.IH a kv by fastforce
      then show "fuelFor (snd kv) \<le> length (member ns kv)" using kv by (simp add: member_def)
    qed
    from sum_list_Suc_mono[of kvs "\<lambda>kv. fuelFor (snd kv)" "\<lambda>kv. length (member ns kv)", OF this]
    have "sum_list (map (\<lambda>kv. Suc (fuelFor (snd kv))) kvs)
            \<le> sum_list (map (\<lambda>x. Suc (length x)) (map (member ns) kvs))"
      by (simp add: comp_def)
    also have "\<dots> \<le> Suc (length (commas (map (member ns) kvs)))"
      using False by (intro length_commas_Suc) simp
    finally have "sum_list (map (\<lambda>kv. Suc (fuelFor (snd kv))) kvs) \<le> Suc (length (commas (map (member ns) kvs)))" .
    then show ?thesis unfolding fuelFor_obj stringify_obj_member by simp
  qed
qed (simp_all add: quoteJSONString_def)

lemma JSON_parse_stringify:
  assumes "wfJson ns nr v"
  shows "JSON_parse nr (JSON_stringify ns v) = Some v"
proof -
  have "delim []" by (simp add: delim_def)
  with wfJson_roundtrips[OF assms] fuelFor_le_length[OF assms]
  have "parseValue nr (length (JSON_stringify ns v)) (JSON_stringify ns v @ []) = Some (v, [])"
    unfolding roundtrips_def by blast
  then show ?thesis by (simp add: JSON_parse_def skipWs_def)
qed


section \<open>Properties of the history store\<close>


lemma load_save:
  assumes "list_all (wfJson ns nr) h"
  shows "loadHistory nr (saveHistory ns h (Some ls)) = h"
proof -
  have "wfJson ns nr (JArr h)" using assms by simp
  then have "JSON_parse nr (JSON_stringify ns (JArr h)) = Some (JArr h)"
    by (rule JSON_parse_stringify)
  then show ?thesis by (simp add: loadHistory_def saveHistory_def)
qed

text \<open>Without a window nothing is stored, and clearing leaves an empty history.\<close>

lemma load_save_without_window: "loadHistory nr (saveHistory ns h None) = []"
  by (simp add: loadHistory_def saveHistory_def)

lemma clear_then_load:
  "loadHistory nr (clearHistory window) = []"
  "loadHistory nr (snd (useHistory_clear ns (its, Some ls))) = []"
proof -
  show "loadHistory nr (clearHistory window) = []"
    by (cases window) (simp_all add: loadHistory_def clearHistory_def)
  have "list_all (wfJson ns nr) []" by simp
  from load_save[OF this, of ls] show "loadHistory nr (snd (useHistory_clear ns (its, Some ls))) = []"
    by (simp add: useHistory_clear_def)
qed

lemma filterNotId_entries:
  assumes "list_all isEntry h"
  shows "filterNotId i h = Inr (filter (\<lambda>r. resultId r \<noteq> Some i) h)"
  using assms
proof (induction h)
  case Nil
  then show ?case by simp
next
  case (Cons r rs)
  then obtain kvs s where r: "r = JObj kvs" "map_of kvs ''id'' = Some (JStr s)"
    by (auto simp add: isEntry_def resultId_def split: json.splits option.splits)
  then show ?case using Cons by (auto simp add: resultId_def)
qed

lemma filter_drops_one:
  assumes "distinct (map f h)" "k \<in> set (map f h)"
  shows "\<exists>xs r ys. h = xs @ r # ys \<and> f r = k \<and> filter (\<lambda>r. f r \<noteq> k) h = xs @ ys"
proof -
  from assms(2) obtain r where "r \<in> set h" "f r = k" by auto
  then obtain xs ys where h: "h = xs @ r # ys" by (auto simp add: in_set_conv_decomp)
  with assms(1) \<open>f r = k\<close> have "\<forall>x\<in>set xs. f x \<noteq> k" "\<forall>y\<in>set ys. f y \<noteq> k"
    by (auto simp add: image_iff)
  then have "filter (\<lambda>r. f r \<noteq> k) h = xs @ ys" using h \<open>f r = k\<close> by simp
  with h \<open>f r = k\<close> show ?thesis by blast
qed

lemma wf_filter: "list_all P h \<Longrightarrow> list_all P (filter Q h)"
  by (induction h) auto

text \<open>The text of a history of one entry, and some texts read.\<close>

lemma JSON_stringify_example:
  \<open>JSON_stringify exampleNumberToString (JArr [jsonOfPovResult (exampleResult ''a'')]) =
        ''[{"id":"a","createdAt":0,"request":{"prompt":"busy bazaar street at du'' @
        ''sk","arrow":{"latitude":12,"longitude":90,"bearingDeg":0,"lengthMeters'' @
        ''":150},"map":{"zoom":12,"center":{"latitude":12,"longitude":90},"bound'' @
        ''s":{"north":12,"south":12,"east":90,"west":90},"style":"https://basema'' @
        ''ps.cartocdn.com/gl/voyager-gl-style/style.json"}},"mapSnapshotDataUrl"'' @
        '':"data:image/jpeg;base64,AAAA","imageDataUrl":"data:image/svg+xml;base'' @
        ''64,BBBB","model":"mock"}]''\<close>
  by code_simp
lemma JSON_parse_examples:
  \<open>JSON_parse exampleParseNumber (''  [ {"id" : "a", "n": 12 , "n": 150, "xs":[true,false,null, [ ] ]} ]  '')
     = Some (JArr [JObj [(''id'', JStr ''a''), (''n'', JNum 150),
                        (''xs'', JArr [JBool True, JBool False, JNull, JArr []])]])\<close>
  \<open>JSON_parse exampleParseNumber ([CHR 0x22, CHR 0x5C] @ ''u0041'' @ [CHR 0x5C] @ ''n'' @ [CHR 0x22])
     = Some (JStr [CHR ''A'', CHR 0x0A])\<close>
  \<open>JSON_parse exampleParseNumber ''[12,]'' = None\<close>
  \<open>JSON_parse exampleParseNumber ''{"a":0} x'' = None\<close>
  by code_simp+

lemma wfJson_PovResult:
  assumes "list_all (numOk ns nr) (povNumbers r)"
  shows "wfJson ns nr (jsonOfPovResult r)"
  using assms
  by (cases "pov_model r"; cases "safetyLabels r")
     (simp_all add: jsonOfPovResult_def jsonOfArrow_def jsonOfMapState_def povNumbers_def Let_def
        list_all_iff)

lemma resultId_PovResult: "resultId (jsonOfPovResult r) = Some (pov_id r)"
  by (simp add: resultId_def jsonOfPovResult_def)

lemma example_numbers_ok:
  "numOk exampleNumberToString exampleParseNumber 0"
  "numOk exampleNumberToString exampleParseNumber 12"
  "numOk exampleNumberToString exampleParseNumber 90"
  "numOk exampleNumberToString exampleParseNumber 150"
  by (simp_all add: numOk_def exampleNumberToString_def exampleParseNumber_def isDigit_def isNumChar_def)

lemma example_result_numbers:
  "list_all (numOk exampleNumberToString exampleParseNumber) (povNumbers (exampleResult i))"
  by (simp add: povNumbers_def exampleResult_def exampleArrow_def exampleMapState_def
      example_numbers_ok)

lemma example_result_wf:
  "wfJson exampleNumberToString exampleParseNumber (jsonOfPovResult (exampleResult i))"
  by (rule wfJson_PovResult[OF example_result_numbers])

lemma example_result_entry: "isEntry (jsonOfPovResult (exampleResult i))"
  by (simp add: isEntry_def resultId_PovResult)

lemma jsonOfPovResult_inject:
  assumes "jsonOfPovResult r' = jsonOfPovResult r"
  shows "r' = r"
proof -
  have m: "\<And>xs ys. map JStr xs = map JStr ys \<Longrightarrow> xs = ys"
    by (simp add: inj_map_eq_map inj_on_def)
  obtain i t q u v mo sl where r: "r = \<lparr>pov_id = i, createdAt = t, request = q,
      pov_mapSnapshotDataUrl = u, pov_imageDataUrl = v, pov_model = mo, safetyLabels = sl\<rparr>"
    by (cases r) auto
  obtain i' t' q' u' v' mo' sl' where r': "r' = \<lparr>pov_id = i', createdAt = t', request = q',
      pov_mapSnapshotDataUrl = u', pov_imageDataUrl = v', pov_model = mo', safetyLabels = sl'\<rparr>"
    by (cases r') auto
  obtain p a ms where q: "q = \<lparr>req_prompt = p, req_arrow = a, req_map = ms\<rparr>" by (cases q) auto
  obtain p' a' ms' where q': "q' = \<lparr>req_prompt = p', req_arrow = a', req_map = ms'\<rparr>" by (cases q') auto
  have top: "i' = i" "t' = t" "u' = u" "v' = v" "p' = p"
    "jsonOfArrow a' = jsonOfArrow a" "jsonOfMapState ms' = jsonOfMapState ms"
    using assms unfolding r r' q q' by (simp_all add: jsonOfPovResult_def)
  have opt: "optional ''model'' (map_option JStr mo') @ optional ''safetyLabels'' (map_option (\<lambda>ls. JArr (map JStr ls)) sl')
           = optional ''model'' (map_option JStr mo) @ optional ''safetyLabels'' (map_option (\<lambda>ls. JArr (map JStr ls)) sl)"
    using assms unfolding r r' q q' by (simp add: jsonOfPovResult_def)
  have "mo' = mo \<and> sl' = sl"
    using opt m by (cases mo; cases mo'; cases sl; cases sl') auto
  moreover have "a' = a"
    using top(6) by (cases a; cases a') (simp add: jsonOfArrow_def)
  moreover have "ms' = ms"
  proof -
    obtain z c b st where ms: "ms = \<lparr>zoom = z, center = c, bounds = b, style = st\<rparr>" by (cases ms) auto
    obtain z' c' b' st' where ms': "ms' = \<lparr>zoom = z', center = c', bounds = b', style = st'\<rparr>" by (cases ms') auto
    show ?thesis using top(7) unfolding ms ms'
      by (cases c; cases c'; cases b; cases b') (simp add: jsonOfMapState_def)
  qed
  ultimately show ?thesis using top(1-5) unfolding r r' q q' by simp
qed

text \<open>
  C5. Adding a result and loading again gives the new result first, followed by the
  entries that were there, in their order: through the hook (the list in memory is
  \<open>prev\<close>) and through \<^verbatim>\<open>appendResult\<close> (the stored list loads as \<open>prev\<close>).
\<close>

theorem history_add_then_load:
  assumes "wfJson ns nr r" and "list_all (wfJson ns nr) prev"
  shows "fst (useHistory_add ns r (prev, Some ls)) = r # prev
       \<and> loadHistory nr (snd (useHistory_add ns r (prev, Some ls))) = r # prev
       \<and> (loadHistory nr (Some ls) = prev \<longrightarrow>
            loadHistory nr (appendResult ns nr r (Some ls)) = r # prev)"
  using load_save[of ns nr "r # prev" ls] assms
  by (simp add: useHistory_add_def appendResult_def Let_def)

theorem history_add_then_load_witness:
  "wfJson exampleNumberToString exampleParseNumber (jsonOfPovResult (exampleResult ''new''))
   \<and> list_all (wfJson exampleNumberToString exampleParseNumber) [jsonOfPovResult (exampleResult ''old'')]
   \<and> loadHistory exampleParseNumber
        (saveHistory exampleNumberToString [jsonOfPovResult (exampleResult ''old'')] (Some Map.empty))
       = [jsonOfPovResult (exampleResult ''old'')]
   \<and> loadHistory exampleParseNumber
        (snd (useHistory_add exampleNumberToString (jsonOfPovResult (exampleResult ''new''))
               ([jsonOfPovResult (exampleResult ''old'')], Some Map.empty)))
       = [jsonOfPovResult (exampleResult ''new''), jsonOfPovResult (exampleResult ''old'')]
   \<and> loadHistory exampleParseNumber
        (appendResult exampleNumberToString exampleParseNumber (jsonOfPovResult (exampleResult ''new''))
           (saveHistory exampleNumberToString [jsonOfPovResult (exampleResult ''old'')] (Some Map.empty)))
       = [jsonOfPovResult (exampleResult ''new''), jsonOfPovResult (exampleResult ''old'')]"
proof -
  let ?ns = exampleNumberToString and ?nr = exampleParseNumber
  let ?new = "jsonOfPovResult (exampleResult ''new'')" and ?old = "jsonOfPovResult (exampleResult ''old'')"
  let ?ls = "Map.empty(KEY \<mapsto> JSON_stringify ?ns (JArr [?old]))"
  have w1: "wfJson ?ns ?nr ?new" by (rule example_result_wf)
  have w2: "list_all (wfJson ?ns ?nr) [?old]" by (simp add: example_result_wf)
  have s: "saveHistory ?ns [?old] (Some Map.empty) = Some ?ls" by (simp add: saveHistory_def)
  have l: "loadHistory ?nr (Some ?ls) = [?old]" using load_save[OF w2, of Map.empty] s by simp
  from history_add_then_load[OF w1 w2, of Map.empty]
  have a: "loadHistory ?nr (snd (useHistory_add ?ns ?new ([?old], Some Map.empty))) = [?new, ?old]"
    by blast
  from history_add_then_load[OF w1 w2, of ?ls] l
  have b: "loadHistory ?nr (appendResult ?ns ?nr ?new (Some ?ls)) = [?new, ?old]"
    by blast
  show ?thesis unfolding s by (intro conjI) (rule w1, rule w2, rule l, rule a, rule b)
qed

text \<open>
  C6. Removing by identifier and loading again gives the list without the entries of
  that identifier, the others in their order: through the hook and through
  \<^verbatim>\<open>removeResult\<close>. When the identifiers are distinct and one entry has the
  identifier, exactly that entry is left out.
\<close>

theorem history_remove_then_load:
  assumes "list_all (wfJson ns nr) h" and "list_all isEntry h"
  shows "(\<exists>w. useHistory_remove ns i (h, Some ls) = Inr (filter (\<lambda>r. resultId r \<noteq> Some i) h, w)
            \<and> loadHistory nr w = filter (\<lambda>r. resultId r \<noteq> Some i) h)
       \<and> (loadHistory nr (Some ls) = h \<longrightarrow>
            (\<exists>w. removeResult ns nr i (Some ls) = Inr w
               \<and> loadHistory nr w = filter (\<lambda>r. resultId r \<noteq> Some i) h))
       \<and> (distinct (map resultId h) \<and> Some i \<in> set (map resultId h) \<longrightarrow>
            (\<exists>xs r ys. h = xs @ r # ys \<and> resultId r = Some i
               \<and> filter (\<lambda>r. resultId r \<noteq> Some i) h = xs @ ys))"
proof -
  let ?h' = "filter (\<lambda>r. resultId r \<noteq> Some i) h"
  have wf': "list_all (wfJson ns nr) ?h'" using assms(1) by (rule wf_filter)
  have ld: "loadHistory nr (saveHistory ns ?h' (Some ls)) = ?h'" by (rule load_save[OF wf'])
  have f: "filterNotId i h = Inr ?h'" by (rule filterNotId_entries[OF assms(2)])
  have a: "\<exists>w. useHistory_remove ns i (h, Some ls) = Inr (?h', w) \<and> loadHistory nr w = ?h'"
    using f ld by (simp add: useHistory_remove_def)
  have b: "loadHistory nr (Some ls) = h \<longrightarrow>
            (\<exists>w. removeResult ns nr i (Some ls) = Inr w \<and> loadHistory nr w = ?h')"
    using f ld by (simp add: removeResult_def)
  have c: "distinct (map resultId h) \<and> Some i \<in> set (map resultId h) \<longrightarrow>
            (\<exists>xs r ys. h = xs @ r # ys \<and> resultId r = Some i \<and> ?h' = xs @ ys)"
    using filter_drops_one[of resultId h "Some i"] by blast
  show ?thesis using a b c by blast
qed

theorem history_remove_then_load_witness:
  "list_all (wfJson exampleNumberToString exampleParseNumber)
     [jsonOfPovResult (exampleResult ''a''), jsonOfPovResult (exampleResult ''b''),
      jsonOfPovResult (exampleResult ''c'')]
   \<and> list_all isEntry
     [jsonOfPovResult (exampleResult ''a''), jsonOfPovResult (exampleResult ''b''),
      jsonOfPovResult (exampleResult ''c'')]
   \<and> (\<exists>w. useHistory_remove exampleNumberToString ''b''
            ([jsonOfPovResult (exampleResult ''a''), jsonOfPovResult (exampleResult ''b''),
              jsonOfPovResult (exampleResult ''c'')], Some Map.empty)
          = Inr ([jsonOfPovResult (exampleResult ''a''), jsonOfPovResult (exampleResult ''c'')], w)
        \<and> loadHistory exampleParseNumber w
          = [jsonOfPovResult (exampleResult ''a''), jsonOfPovResult (exampleResult ''c'')])"
proof -
  let ?ns = exampleNumberToString and ?nr = exampleParseNumber
  let ?a = "jsonOfPovResult (exampleResult ''a'')" and ?b = "jsonOfPovResult (exampleResult ''b'')"
    and ?c = "jsonOfPovResult (exampleResult ''c'')"
  have w: "list_all (wfJson ?ns ?nr) [?a, ?b, ?c]" by (simp add: example_result_wf)
  have e: "list_all isEntry [?a, ?b, ?c]" by (simp add: example_result_entry)
  have f: "filter (\<lambda>r. resultId r \<noteq> Some ''b'') [?a, ?b, ?c] = [?a, ?c]"
    by (simp add: resultId_PovResult exampleResult_def)
  from history_remove_then_load[OF w e, of "''b''" Map.empty]
  have "\<exists>w. useHistory_remove ?ns ''b'' ([?a, ?b, ?c], Some Map.empty) = Inr ([?a, ?c], w)
           \<and> loadHistory ?nr w = [?a, ?c]"
    unfolding f by blast
  with w e show ?thesis by blast
qed

text \<open>
  C7. Loading never fails: when the stored value is missing, is not valid JSON or is
  not a JSON array, the loaded history is the empty list.
\<close>

theorem loadHistory_tolerant:
  assumes "unusable nr (persisted window)"
  shows "loadHistory nr window = []"
proof (cases window)
  case None
  then show ?thesis by (simp add: loadHistory_def)
next
  case (Some ls)
  show ?thesis
  proof (cases "ls KEY")
    case None
    then show ?thesis using Some by (simp add: loadHistory_def)
  next
    case (Some raw)
    then have "JSON_parse nr raw = None \<or> (\<exists>v. JSON_parse nr raw = Some v \<and> \<not> isArray v)"
      using assms \<open>window = Some ls\<close> by (auto simp add: unusable_def persisted_def split: option.splits)
    then show ?thesis using Some \<open>window = Some ls\<close>
      by (auto simp add: loadHistory_def split: json.splits)
  qed
qed

theorem loadHistory_tolerant_witness:
  "unusable exampleParseNumber (persisted None)
   \<and> loadHistory exampleParseNumber None = []
   \<and> unusable exampleParseNumber (persisted (Some Map.empty))
   \<and> loadHistory exampleParseNumber (Some Map.empty) = []
   \<and> unusable exampleParseNumber (persisted (Some (Map.empty(KEY \<mapsto> ''[{''))))
   \<and> loadHistory exampleParseNumber (Some (Map.empty(KEY \<mapsto> ''[{''))) = []
   \<and> unusable exampleParseNumber (persisted (Some (Map.empty(KEY \<mapsto> ''{}''))))
   \<and> loadHistory exampleParseNumber (Some (Map.empty(KEY \<mapsto> ''{}''))) = []"
proof -
  let ?nr = exampleParseNumber
  have p1: "JSON_parse ?nr ''[{'' = None"
    by (simp add: JSON_parse_def skipWs_def isWs_def dquote_def)
  have p2: "JSON_parse ?nr ''{}'' = Some (JObj [])"
    by (simp add: JSON_parse_def skipWs_def isWs_def)
  have u1: "unusable ?nr (persisted None)" by (simp add: unusable_def persisted_def)
  have u2: "unusable ?nr (persisted (Some Map.empty))" by (simp add: unusable_def persisted_def)
  have u3: "unusable ?nr (persisted (Some (Map.empty(KEY \<mapsto> ''[{''))))"
    using p1 by (simp add: unusable_def persisted_def)
  have u4: "unusable ?nr (persisted (Some (Map.empty(KEY \<mapsto> ''{}''))))"
    using p2 by (simp add: unusable_def persisted_def)
  show ?thesis
    using u1 u2 u3 u4 loadHistory_tolerant[OF u1] loadHistory_tolerant[OF u2]
      loadHistory_tolerant[OF u3] loadHistory_tolerant[OF u4]
    by blast
qed

text \<open>
  C8. After every mutation through the hook (add, remove, clear) the stored text is the
  serialisation of the list in memory: each operation writes the full new list in the
  same step.
\<close>

theorem hook_mutations_persist:
  "inSync ns (useHistory_add ns item (its, Some ls))
   \<and> inSync ns (useHistory_clear ns (its, Some ls))
   \<and> fst (useHistory_clear ns (its, Some ls)) = []
   \<and> (\<forall>st'. useHistory_remove ns i (its, Some ls) = Inr st' \<longrightarrow> inSync ns st')"
  by (auto simp add: inSync_def persisted_def useHistory_add_def useHistory_clear_def
        useHistory_remove_def saveHistory_def Let_def split: sum.splits)

theorem hook_mutations_persist_witness:
  "useHistory_remove exampleNumberToString ''a'' ([jsonOfPovResult (exampleResult ''a'')], Some Map.empty)
     = Inr ([], Some (Map.empty(KEY \<mapsto> ''[]'')))
   \<and> inSync exampleNumberToString ([], Some (Map.empty(KEY \<mapsto> ''[]'')))
   \<and> inSync exampleNumberToString
        (useHistory_add exampleNumberToString (jsonOfPovResult (exampleResult ''a'')) ([], Some Map.empty))"
proof -
  let ?ns = exampleNumberToString
  let ?a = "jsonOfPovResult (exampleResult ''a'')"
  have r: "useHistory_remove ?ns ''a'' ([?a], Some Map.empty) = Inr ([], Some (Map.empty(KEY \<mapsto> ''[]'')))"
    by (simp add: useHistory_remove_def jsonOfPovResult_def exampleResult_def saveHistory_def)
  from hook_mutations_persist[of ?ns ?a "[]" Map.empty "''a''"] 
  have a: "inSync ?ns (useHistory_add ?ns ?a ([], Some Map.empty))" by blast
  from hook_mutations_persist[of ?ns ?a "[?a]" Map.empty "''a''"] r
  have b: "inSync ?ns ([], Some (Map.empty(KEY \<mapsto> ''[]'')))" by blast
  show ?thesis by (intro conjI) (rule r, rule b, rule a)
qed

text \<open>
  C9. A PovResult written as JSON and read back is the same object, field for field
  (the object determines the record), and a history list that is saved and loaded is
  the same list.
\<close>

theorem povResult_json_roundtrip:
  assumes "list_all (numOk ns nr) (povNumbers r)" and "list_all (wfJson ns nr) h"
  shows "JSON_parse nr (JSON_stringify ns (jsonOfPovResult r)) = Some (jsonOfPovResult r)
       \<and> (\<forall>r'. JSON_parse nr (JSON_stringify ns (jsonOfPovResult r)) = Some (jsonOfPovResult r')
              \<longrightarrow> r' = r)
       \<and> loadHistory nr (saveHistory ns h (Some ls)) = h
       \<and> loadHistory nr (saveHistory ns (jsonOfPovResult r # h) (Some ls)) = jsonOfPovResult r # h"
proof -
  have w: "wfJson ns nr (jsonOfPovResult r)" by (rule wfJson_PovResult[OF assms(1)])
  have p: "JSON_parse nr (JSON_stringify ns (jsonOfPovResult r)) = Some (jsonOfPovResult r)"
    by (rule JSON_parse_stringify[OF w])
  have i: "\<forall>r'. JSON_parse nr (JSON_stringify ns (jsonOfPovResult r)) = Some (jsonOfPovResult r')
              \<longrightarrow> r' = r"
    unfolding p using jsonOfPovResult_inject by auto
  have l: "loadHistory nr (saveHistory ns h (Some ls)) = h" by (rule load_save[OF assms(2)])
  have "list_all (wfJson ns nr) (jsonOfPovResult r # h)" using w assms(2) by simp
  then have l2: "loadHistory nr (saveHistory ns (jsonOfPovResult r # h) (Some ls)) = jsonOfPovResult r # h"
    by (rule load_save)
  show ?thesis using p i l l2 by blast
qed

theorem povResult_json_roundtrip_witness:
  "list_all (numOk exampleNumberToString exampleParseNumber) (povNumbers (exampleResult ''a''))
   \<and> list_all (wfJson exampleNumberToString exampleParseNumber) [jsonOfPovResult (exampleResult ''b'')]
   \<and> JSON_parse exampleParseNumber (JSON_stringify exampleNumberToString (jsonOfPovResult (exampleResult ''a'')))
       = Some (jsonOfPovResult (exampleResult ''a''))
   \<and> loadHistory exampleParseNumber
        (saveHistory exampleNumberToString
           [jsonOfPovResult (exampleResult ''a''), jsonOfPovResult (exampleResult ''b'')] (Some Map.empty))
       = [jsonOfPovResult (exampleResult ''a''), jsonOfPovResult (exampleResult ''b'')]"
proof -
  have n: "list_all (numOk exampleNumberToString exampleParseNumber) (povNumbers (exampleResult ''a''))"
    by (rule example_result_numbers)
  have w: "list_all (wfJson exampleNumberToString exampleParseNumber) [jsonOfPovResult (exampleResult ''b'')]"
    by (simp add: example_result_wf)
  from povResult_json_roundtrip[OF n w, of Map.empty] n w
  show ?thesis by blast
qed

end
